theory Spec2Isabelle
  imports Main
begin

section \<open>Errors and the error-propagating bind\<close>

text \<open>
  Every exception the service can raise is a constructor.  The first four are the
  service's own classes (\<open>InvalidIDError\<close>, \<open>ParseError\<close> and \<open>NotFoundError\<close>
  derive from \<open>MatchServiceError\<close>); the others are the Python built-ins that the
  code can hit, the failure of a library call (\<open>LibraryError\<close>) and a failure of
  the persistence driver (\<open>PyMongoError\<close>).  The message of a
  \<open>MatchServiceError\<close> is kept without its interpolated values.
\<close>

datatype error =
    InvalidIDError
  | ParseError
  | NotFoundError
  | MatchServiceError string
  | ValueError
  | AttributeError
  | IndexError
  | TypeError
  | LibraryError
  | PyMongoError

definition bind_err :: "error + 'a \<Rightarrow> ('a \<Rightarrow> error + 'b) \<Rightarrow> error + 'b" where
  "bind_err r f = (case r of Inl e \<Rightarrow> Inl e | Inr x \<Rightarrow> f x)"

fun foldM_err :: "('s \<Rightarrow> 'a \<Rightarrow> error + 's) \<Rightarrow> 's \<Rightarrow> 'a list \<Rightarrow> error + 's" where
  "foldM_err f s [] = Inr s"
| "foldM_err f s (x # xs) = bind_err (f s x) (\<lambda>s'. foldM_err f s' xs)"

fun mapM_err :: "('a \<Rightarrow> error + 'b) \<Rightarrow> 'a list \<Rightarrow> error + 'b list" where
  "mapM_err f [] = Inr []"
| "mapM_err f (x # xs) = bind_err (f x) (\<lambda>y. bind_err (mapM_err f xs) (\<lambda>ys. Inr (y # ys)))"

text \<open>List indexing with a non-negative index: out of range raises \<open>IndexError\<close>.\<close>

definition nth_err :: "'a list \<Rightarrow> nat \<Rightarrow> error + 'a" where
  "nth_err xs i = (if i < length xs then Inr (xs ! i) else Inl IndexError)"

section \<open>Data model (app/models/db\_models.py)\<close>

text \<open>
  The three delta fields hold what \<open>update_player_stats\<close> stores in them: the result of
  \<open>round\<close>, the constant 0, or the configured minimum for substitutes; all of them
  integers, so the fields are integers here.  Timestamps are natural numbers.
\<close>

record PlayerModel =
  steam_id :: "string option"
  user_name :: "string option"
  civ :: string
  team :: int
  leader :: "string option"
  player_alive :: "bool option"
  discord_id :: "string option"
  placement :: "int option"
  quit :: bool
  delta :: int
  season_delta :: "int option"
  combined_delta :: "int option"
  is_sub :: bool
  subbed_out :: bool

record MatchModel =
  game :: string
  turn :: int
  age :: "string option"
  map_type :: string
  game_mode :: string
  is_cloud :: bool
  players :: "PlayerModel list"
  parser_version :: string
  discord_messages_id_list :: "string list"
  created_at :: nat
  approved_at :: "nat option"
  approver_discord_id :: "string option"
  flagged :: bool
  flagged_by :: "string option"
  save_file_hash :: string
  reporter_discord_id :: string

text \<open>
  A row of an aggregate-stats collection (\<open>stat_doc\<close>, keyed by \<open>_id\<close> in its
  collection) and the in-memory \<open>StatModel\<close>, which adds the player's index in the
  match and the identity.  \<open>'f\<close> is the type of Python floats; its arithmetic is a
  parameter of the model (see \<open>env\<close>), never HOL arithmetic.
\<close>

record 'f stat_doc =
  mu :: 'f
  sigma :: 'f
  games :: int
  wins :: int
  first :: int
  subbedIn :: int
  subbedOut :: int
  civs :: "(string \<times> int) list option"
  lastModified :: nat

record 'f StatModel = "'f stat_doc" +
  index :: nat
  stat_id :: int

datatype delta_name = Delta | SeasonDelta | CombinedDelta

text \<open>\<open>getattr(p, delta_value_name)\<close> and \<open>p.__setattr__(delta_value_name, v)\<close>.\<close>

fun get_delta :: "delta_name \<Rightarrow> PlayerModel \<Rightarrow> int option" where
  "get_delta Delta p = Some (delta p)"
| "get_delta SeasonDelta p = season_delta p"
| "get_delta CombinedDelta p = combined_delta p"

fun set_delta :: "delta_name \<Rightarrow> int \<Rightarrow> PlayerModel \<Rightarrow> PlayerModel" where
  "set_delta Delta v p = p\<lparr>delta := v\<rparr>"
| "set_delta SeasonDelta v p = p\<lparr>season_delta := Some v\<rparr>"
| "set_delta CombinedDelta v p = p\<lparr>combined_delta := Some v\<rparr>"

section \<open>What the service takes from outside\<close>

text \<open>
  The parsed save, as the parsers (not part of these sources) hand it over: the match
  fields and, per player, the fields read from the save.  A missing \<open>leader\<close> key is
  \<open>None\<close>.  The other fields of \<open>PlayerModel\<close> take their declared defaults when
  \<open>MatchModel(**parsed)\<close> is built.
\<close>

record parsed_player =
  pp_steam_id :: "string option"
  pp_user_name :: "string option"
  pp_civ :: string
  pp_team :: int
  pp_leader :: "string option"
  pp_player_alive :: "bool option"
  pp_placement :: "int option"
  pp_quit :: bool

record parsed =
  parsed_game :: string
  parsed_turn :: int
  parsed_age :: "string option"
  parsed_map_type :: string
  parsed_game_mode :: string
  parsed_players :: "parsed_player list"
  parsed_parser_version :: string

text \<open>
  The environment collects the collaborators whose code is outside the service:
  the TrueSkill environment's \<open>rate\<close> on rating groups \<open>(mu, sigma)\<close> with ranks
  (\<open>None\<close> when it raises), float subtraction, float-plus-number, Python's \<open>round\<close>
  (\<open>None\<close> when it raises, as on NaN), the configured prior and minimum substitute
  credit, \<open>int(s)\<close>/\<open>Int64(s)\<close> on a string, \<open>ObjectId(s)\<close>, the SHA-256 hex digest,
  the two save parsers, \<open>get_cpl_name\<close> and the clock.
\<close>

record 'f env =
  rate :: "('f \<times> 'f) list list \<Rightarrow> int option list \<Rightarrow> ('f \<times> 'f) list list option"
  fsub :: "'f \<Rightarrow> 'f \<Rightarrow> 'f"
  fadd :: "'f \<Rightarrow> int \<Rightarrow> 'f"
  py_round :: "'f \<Rightarrow> int option"
  ts_mu :: 'f
  ts_sigma :: 'f
  min_points_for_subs :: int
  py_int :: "string \<Rightarrow> int option"
  ObjectId :: "string \<Rightarrow> nat option"
  sha256 :: "string \<Rightarrow> string"
  parse_civ6_save :: "string \<Rightarrow> parsed option"
  parse_civ7_save :: "string \<Rightarrow> parsed option"
  get_cpl_name :: "string \<Rightarrow> string \<Rightarrow> string option \<Rightarrow> string option"
  utcnow :: nat

section \<open>Team partitioner and rating update (update\_player\_stats)\<close>

definition num_teams :: "MatchModel \<Rightarrow> nat" where
  "num_teams m = card (set (map team (players m)))"

text \<open>
  \<open>d[t].append(x)\<close> on a \<open>defaultdict(list)\<close>: the dictionary keeps its keys in the
  order of their first use, which is the order the later comprehensions iterate in.
\<close>

fun add_to_team :: "int \<Rightarrow> 'a \<Rightarrow> (int \<times> 'a list) list \<Rightarrow> (int \<times> 'a list) list" where
  "add_to_team t x [] = [(t, [x])]"
| "add_to_team t x ((k, xs) # g) =
     (if k = t then (k, xs @ [x]) # g else (k, xs) # add_to_team t x g)"

type_synonym teams = "(int \<times> (nat \<times> PlayerModel) list) list"

fun partition_teams :: "(nat \<times> PlayerModel) list \<Rightarrow> teams \<times> teams \<Rightarrow> teams \<times> teams" where
  "partition_teams [] acc = acc"
| "partition_teams ((i, p) # ps) (teams_wo_subs, teams_with_sub_ins) =
     partition_teams ps
       (if is_sub p then (teams_wo_subs, add_to_team (team p) (i, p) teams_with_sub_ins)
        else if subbed_out p then (add_to_team (team p) (i, p) teams_wo_subs, teams_with_sub_ins)
        else (add_to_team (team p) (i, p) teams_wo_subs,
              add_to_team (team p) (i, p) teams_with_sub_ins))"

definition team_states :: "'f StatModel list \<Rightarrow> teams \<Rightarrow> error + 'f StatModel list list" where
  "team_states players_ranking ts =
     mapM_err (\<lambda>(t, members). mapM_err (\<lambda>(i, p). nth_err players_ranking i) members) ts"

definition team_placements :: "teams \<Rightarrow> error + int option list" where
  "team_placements ts =
     mapM_err (\<lambda>(t, members). case members of [] \<Rightarrow> Inl IndexError
                                | (i, p) # _ \<Rightarrow> Inr (placement p)) ts"

definition call_rate ::
  "'f env \<Rightarrow> 'f StatModel list list \<Rightarrow> int option list \<Rightarrow> error + ('f \<times> 'f) list list" where
  "call_rate env states ranks =
     (case rate env (map (map (\<lambda>p. (mu p, sigma p))) states) ranks of
        None \<Rightarrow> Inl LibraryError | Some new \<Rightarrow> Inr new)"

type_synonym 'f post = "'f StatModel option list"

text \<open>
  \<open>post\<close> starts as \<open>list(range(n))\<close>: a slot that holds its integer placeholder is
  \<open>None\<close>, and reading \<open>.mu\<close> from it raises \<open>AttributeError\<close>.  \<open>set_post\<close> is the
  assignment \<open>post[player.index] = StatModel(...)\<close>, which copies every field of
  \<open>player\<close> except the two rating components and the default timestamp.
\<close>

definition set_post ::
  "'f env \<Rightarrow> ('f \<times> 'f) list list \<Rightarrow> nat \<Rightarrow> 'f post \<Rightarrow> nat \<times> 'f StatModel \<Rightarrow> error + 'f post" where
  "set_post env new_ts team_idx post ip =
     (case ip of (player_index, player) \<Rightarrow>
        bind_err (nth_err new_ts team_idx) (\<lambda>row.
        bind_err (nth_err row player_index) (\<lambda>r.
        if index player < length post
        then Inr (post[index player :=
                    Some (player\<lparr>mu := fst r, sigma := snd r, lastModified := utcnow env\<rparr>)])
        else Inl IndexError)))"

definition merge_wo_subs ::
  "'f env \<Rightarrow> MatchModel \<Rightarrow> ('f \<times> 'f) list list \<Rightarrow> 'f StatModel list list \<Rightarrow> 'f post
     \<Rightarrow> error + 'f post" where
  "merge_wo_subs env m new_ts states post0 =
     foldM_err (\<lambda>post (team_idx, tm).
       foldM_err (\<lambda>post ip.
         bind_err (nth_err (players m) (index (snd ip))) (\<lambda>p.
         if is_sub p then Inl ValueError else set_post env new_ts team_idx post ip))
       post (enumerate 0 tm))
     post0 (enumerate 0 states)"

definition merge_with_sub_ins ::
  "'f env \<Rightarrow> MatchModel \<Rightarrow> ('f \<times> 'f) list list \<Rightarrow> 'f StatModel list list \<Rightarrow> 'f post
     \<Rightarrow> error + 'f post" where
  "merge_with_sub_ins env m new_ts states post0 =
     foldM_err (\<lambda>post (team_idx, tm).
       foldM_err (\<lambda>post ip.
         bind_err (nth_err (players m) (index (snd ip))) (\<lambda>p.
         if is_sub p then set_post env new_ts team_idx post ip else Inr post))
       post (enumerate 0 tm))
     post0 (enumerate 0 states)"

text \<open>
  The posterior per player slot: both partitions are rated, then merged back onto the
  player index (lines 154--216 of the service).
\<close>

definition posterior :: "'f env \<Rightarrow> MatchModel \<Rightarrow> 'f StatModel list \<Rightarrow> error + 'f post" where
  "posterior env m players_ranking =
     (case partition_teams (enumerate 0 (players m)) ([], []) of
        (teams_wo_subs, teams_with_sub_ins) \<Rightarrow>
     bind_err (team_states players_ranking teams_wo_subs) (\<lambda>team_wo_subs_states.
     bind_err (team_states players_ranking teams_with_sub_ins) (\<lambda>team_with_sub_ins_states.
     bind_err (team_placements teams_wo_subs) (\<lambda>placements_wo_subs.
     bind_err (team_placements teams_with_sub_ins) (\<lambda>placements_with_sub_ins.
     bind_err (call_rate env team_wo_subs_states placements_wo_subs) (\<lambda>new_ts_wo_subs.
     bind_err (call_rate env team_with_sub_ins_states placements_with_sub_ins)
       (\<lambda>new_ts_with_sub_ins.
     bind_err (merge_wo_subs env m new_ts_wo_subs team_wo_subs_states
                 (replicate (length (players m)) None)) (\<lambda>post.
     merge_with_sub_ins env m new_ts_with_sub_ins team_with_sub_ins_states post))))))))"

definition post_at :: "'f post \<Rightarrow> nat \<Rightarrow> error + 'f StatModel" where
  "post_at post i =
     bind_err (nth_err post i) (\<lambda>slot. case slot of None \<Rightarrow> Inl AttributeError
                                         | Some r \<Rightarrow> Inr r)"

text \<open>The computed delta of line 219 and the policy overlay of lines 220--228.\<close>

definition computed_delta ::
  "'f env \<Rightarrow> 'f StatModel \<Rightarrow> 'f post \<Rightarrow> nat \<Rightarrow> PlayerModel \<Rightarrow> error + int" where
  "computed_delta env p_current_ranking post i p =
     (if discord_id p \<noteq> None
      then bind_err (post_at post i) (\<lambda>r.
             case py_round env (fsub env (mu r) (mu p_current_ranking)) of
               None \<Rightarrow> Inl ValueError | Some d \<Rightarrow> Inr d)
      else Inr 0)"

definition stored_delta :: "'f env \<Rightarrow> PlayerModel \<Rightarrow> int \<Rightarrow> int" where
  "stored_delta env p d =
     (if is_sub p then max (min_points_for_subs env) d
      else if subbed_out p then (if d < 0 then d else 0)
      else d)"

definition delta_step ::
  "'f env \<Rightarrow> delta_name \<Rightarrow> 'f StatModel list \<Rightarrow> nat \<Rightarrow> PlayerModel \<Rightarrow> 'f post
     \<Rightarrow> error + (PlayerModel \<times> 'f post)" where
  "delta_step env name players_ranking i p post =
     bind_err (nth_err players_ranking i) (\<lambda>p_current_ranking.
     bind_err (computed_delta env p_current_ranking post i p) (\<lambda>d.
     bind_err (post_at post i) (\<lambda>r.
     Inr (set_delta name (stored_delta env p d) p,
          post[i := Some (r\<lparr>mu := fadd env (mu p_current_ranking) (stored_delta env p d)\<rparr>)]))))"

fun apply_deltas ::
  "'f env \<Rightarrow> delta_name \<Rightarrow> 'f StatModel list \<Rightarrow> (nat \<times> PlayerModel) list \<Rightarrow> 'f post
     \<Rightarrow> error + (PlayerModel list \<times> 'f post)" where
  "apply_deltas env name players_ranking [] post = Inr ([], post)"
| "apply_deltas env name players_ranking ((i, p) # ips) post =
     bind_err (delta_step env name players_ranking i p post) (\<lambda>(p', post').
     bind_err (apply_deltas env name players_ranking ips post') (\<lambda>(ps', post'').
     Inr (p' # ps', post'')))"

text \<open>
  \<open>MatchModel\<close> declares no field \<open>validation_msg_id\<close> and ignores undeclared keys of
  the stored document, so the read in the message of line 152 raises.
\<close>

definition validation_msg_id :: "MatchModel \<Rightarrow> error + string" where
  "validation_msg_id m = Inl AttributeError"

text \<open>
  The caller passes what the previous call returned, which is \<open>None\<close> after a skipped
  update; \<open>match.players\<close> on \<open>None\<close> raises \<open>AttributeError\<close>.
\<close>

definition update_player_stats ::
  "'f env \<Rightarrow> MatchModel option \<Rightarrow> 'f StatModel list \<Rightarrow> delta_name
     \<Rightarrow> error + (MatchModel option \<times> 'f post option)" where
  "update_player_stats env mo players_ranking name =
     (case mo of
        None \<Rightarrow> Inl AttributeError
      | Some m \<Rightarrow>
          if num_teams m \<le> 1
          then bind_err (validation_msg_id m) (\<lambda>msg. Inr (None, None))
          else
            bind_err (posterior env m players_ranking) (\<lambda>post.
            bind_err (apply_deltas env name players_ranking (enumerate 0 (players m)) post)
              (\<lambda>(ps', post').
            Inr (Some (m\<lparr>players := ps'\<rparr>), Some post'))))"

section \<open>The stores\<close>

text \<open>
  A collection is a list of (key, document) pairs in insertion order; \<open>find_one\<close>,
  \<open>update_one\<close>, \<open>replace_one\<close> and \<open>delete_one\<close> act on the first document that
  matches.  Pending and validated matches are keyed by their \<open>ObjectId\<close>, aggregate
  rows by the integer identity, the substitute counters by the identity stored in the player row.
\<close>

datatype stat_db = Civ6Lifetime | Civ7Lifetime | Civ6Season | Civ7Season

type_synonym table_name = "stat_db \<times> string"

record user_doc =
  user_discord_id :: "string option"
  user_steam_id :: "string option"

record 'f db =
  pending_matches :: "(nat \<times> MatchModel) list"
  validated_matches :: "(nat \<times> MatchModel) list"
  users :: "user_doc list"
  subs_table :: "(string option \<times> int) list"
  stats :: "(table_name \<times> (int \<times> 'f stat_doc) list) list"

fun update_first :: "('k \<times> 'v) list \<Rightarrow> 'k \<Rightarrow> ('v \<Rightarrow> 'v) \<Rightarrow> ('k \<times> 'v) list" where
  "update_first [] k f = []"
| "update_first ((k', v) # kvs) k f =
     (if k' = k then (k', f v) # kvs else (k', v) # update_first kvs k f)"

fun delete_first :: "('k \<times> 'v) list \<Rightarrow> 'k \<Rightarrow> ('k \<times> 'v) list" where
  "delete_first [] k = []"
| "delete_first ((k', v) # kvs) k = (if k' = k then kvs else (k', v) # delete_first kvs k)"

text \<open>\<open>insert_one\<close> with the key the driver generated: a duplicate key is refused.\<close>

definition insert_one :: "('k \<times> 'v) list \<Rightarrow> 'k \<Rightarrow> 'v \<Rightarrow> error + ('k \<times> 'v) list" where
  "insert_one coll k v = (if k \<in> fst ` set coll then Inl PyMongoError else Inr (coll @ [(k, v)]))"

text \<open>\<open>replace_one(..., upsert=True)\<close>.\<close>

definition upsert :: "('k \<times> 'v) list \<Rightarrow> 'k \<Rightarrow> 'v \<Rightarrow> ('k \<times> 'v) list" where
  "upsert coll k v =
     (if k \<in> fst ` set coll then update_first coll k (\<lambda>_. v) else coll @ [(k, v)])"

definition get_stat_table :: "bool \<Rightarrow> string \<Rightarrow> string \<Rightarrow> bool \<Rightarrow> bool \<Rightarrow> table_name" where
  "get_stat_table cloud match_type civ_version is_seasonal is_combined =
     ((if is_seasonal
       then (if civ_version = ''civ6'' then Civ6Season else Civ7Season)
       else (if civ_version = ''civ6'' then Civ6Lifetime else Civ7Lifetime)),
      (if cloud then ''pbc_'' else ''rt_'') @ (if is_combined then ''combined'' else match_type))"

definition table_rows :: "'f db \<Rightarrow> table_name \<Rightarrow> (int \<times> 'f stat_doc) list" where
  "table_rows s tn = (case map_of (stats s) tn of None \<Rightarrow> [] | Some rows \<Rightarrow> rows)"

definition discord_to_steam_id :: "'f db \<Rightarrow> string \<Rightarrow> string option" where
  "discord_to_steam_id s d =
     (case find (\<lambda>u. user_discord_id u = Some d) (users s) of
        Some player \<Rightarrow> user_steam_id player | None \<Rightarrow> None)"

definition steam_to_discord_id :: "'f db \<Rightarrow> string \<Rightarrow> string option" where
  "steam_to_discord_id s sid =
     (case find (\<lambda>u. user_steam_id u = Some sid) (users s) of
        Some player \<Rightarrow> user_discord_id player | None \<Rightarrow> None)"

definition match_id_to_discord :: "'f db \<Rightarrow> MatchModel \<Rightarrow> MatchModel" where
  "match_id_to_discord s m =
     m\<lparr>players := map (\<lambda>p. case steam_id p of
                              None \<Rightarrow> p
                            | Some sid \<Rightarrow>
                                if sid \<noteq> [] \<and> sid \<noteq> ''-1''
                                then p\<lparr>discord_id := steam_to_discord_id s sid\<rparr> else p)
                     (players m)\<rparr>"

section \<open>Prior lookup (get\_player\_ranking, get\_players\_ranking)\<close>

definition default_stat :: "'f env \<Rightarrow> nat \<Rightarrow> int \<Rightarrow> 'f StatModel" where
  "default_stat env player_index ident =
     \<lparr>mu = ts_mu env, sigma = ts_sigma env, games = 0, wins = 0, first = 0,
      subbedIn = 0, subbedOut = 0, civs = Some [], lastModified = utcnow env,
      index = player_index, stat_id = ident\<rparr>"

definition get_player_ranking ::
  "'f env \<Rightarrow> 'f db \<Rightarrow> MatchModel \<Rightarrow> string option \<Rightarrow> nat \<Rightarrow> bool \<Rightarrow> bool
     \<Rightarrow> error + 'f StatModel" where
  "get_player_ranking env s m did player_index is_seasonal is_combined =
     (case did of
        None \<Rightarrow> Inr (default_stat env player_index 0)
      | Some d \<Rightarrow>
          (case py_int env d of
             None \<Rightarrow> Inl ValueError
           | Some key \<Rightarrow>
               (case map_of (table_rows s (get_stat_table (is_cloud m) (game_mode m) (game m)
                                             is_seasonal is_combined)) key of
                  Some player \<Rightarrow>
                    Inr \<lparr>mu = mu player, sigma = sigma player, games = games player,
                         wins = wins player, first = first player,
                         subbedIn = subbedIn player, subbedOut = subbedOut player,
                         civs = civs player, lastModified = lastModified player,
                         index = player_index, stat_id = key\<rparr>
                | None \<Rightarrow> Inr (default_stat env player_index key))))"

definition get_players_ranking ::
  "'f env \<Rightarrow> 'f db \<Rightarrow> MatchModel \<Rightarrow> bool \<Rightarrow> bool \<Rightarrow> error + 'f StatModel list" where
  "get_players_ranking env s m is_seasonal is_combined =
     mapM_err (\<lambda>(player_index, player).
                 get_player_ranking env s m (discord_id player) player_index
                   is_seasonal is_combined)
       (enumerate 0 (players m))"

text \<open>
  The block every operation repeats: three prior lookups, then the rating update for
  \<open>delta\<close>, \<open>season_delta\<close> and \<open>combined_delta\<close>, each call receiving the match the
  previous one returned.
\<close>

definition update_all_stats ::
  "'f env \<Rightarrow> 'f db \<Rightarrow> MatchModel
     \<Rightarrow> error + (MatchModel option \<times> 'f post option \<times> 'f post option \<times> 'f post option)" where
  "update_all_stats env s m =
     bind_err (get_players_ranking env s m False False) (\<lambda>players_ranking.
     bind_err (get_players_ranking env s m True False) (\<lambda>players_season_ranking.
     bind_err (get_players_ranking env s m False True) (\<lambda>players_combined_ranking.
     bind_err (update_player_stats env (Some m) players_ranking Delta) (\<lambda>(m1, post).
     bind_err (update_player_stats env m1 players_season_ranking SeasonDelta)
       (\<lambda>(m2, season_post).
     bind_err (update_player_stats env m2 players_combined_ranking CombinedDelta)
       (\<lambda>(m3, combined_post).
     Inr (m3, post, season_post, combined_post)))))))"

text \<open>The first attribute access on the match after the block: \<open>None\<close> has none.\<close>

definition require_match :: "MatchModel option \<Rightarrow> error + MatchModel" where
  "require_match mo = (case mo of None \<Rightarrow> Inl AttributeError | Some m \<Rightarrow> Inr m)"

record response =
  match_id :: nat
  repeated :: "bool option"
  doc :: MatchModel

definition to_oid :: "'f env \<Rightarrow> string \<Rightarrow> error + nat" where
  "to_oid env mid = (case ObjectId env mid of None \<Rightarrow> Inl InvalidIDError | Some oid \<Rightarrow> Inr oid)"

text \<open>The closing \<open>find_one\<close> of an operation and the response built from it.\<close>

definition updated_response :: "'f db \<Rightarrow> nat \<Rightarrow> error + response" where
  "updated_response s oid =
     (case map_of (pending_matches s) oid of
        None \<Rightarrow> Inl AttributeError
      | Some updated \<Rightarrow> Inr \<lparr>match_id = oid, repeated = None, doc = updated\<rparr>)"

section \<open>Ingestion (create\_from\_save)\<close>

definition parse_save :: "'f env \<Rightarrow> string \<Rightarrow> error + parsed" where
  "parse_save env file_bytes =
     (if take 4 file_bytes = ''CIV6''
      then (case parse_civ6_save env file_bytes of None \<Rightarrow> Inl ParseError | Some d \<Rightarrow> Inr d)
      else if take 4 file_bytes = ''CIV7''
      then (case parse_civ7_save env file_bytes of None \<Rightarrow> Inl ParseError | Some d \<Rightarrow> Inr d)
      else Inl ParseError)"

fun join :: "string \<Rightarrow> string list \<Rightarrow> string" where
  "join sep [] = []"
| "join sep [x] = x"
| "join sep (x # y # ys) = x @ sep @ join sep (y # ys)"

definition unique_data :: "parsed \<Rightarrow> string" where
  "unique_data d =
     join '',''
       ([parsed_game d] @ [parsed_map_type d] @
        map (\<lambda>p. pp_civ p @ (case pp_leader p of Some l \<Rightarrow> l | None \<Rightarrow> []))
          (parsed_players d))"

definition to_player :: "parsed_player \<Rightarrow> PlayerModel" where
  "to_player p =
     \<lparr>steam_id = pp_steam_id p, user_name = pp_user_name p, civ = pp_civ p, team = pp_team p,
      leader = pp_leader p, player_alive = pp_player_alive p, discord_id = None,
      placement = pp_placement p, quit = pp_quit p, delta = 0, season_delta = None,
      combined_delta = None, is_sub = False, subbed_out = False\<rparr>"

definition to_match ::
  "'f env \<Rightarrow> parsed \<Rightarrow> string \<Rightarrow> string \<Rightarrow> bool \<Rightarrow> string \<Rightarrow> MatchModel" where
  "to_match env d h reporter cloud discord_message_id =
     \<lparr>game = parsed_game d, turn = parsed_turn d, age = parsed_age d,
      map_type = parsed_map_type d, game_mode = parsed_game_mode d, is_cloud = cloud,
      players = map to_player (parsed_players d), parser_version = parsed_parser_version d,
      discord_messages_id_list = [discord_message_id], created_at = utcnow env,
      approved_at = None, approver_discord_id = None, flagged = False, flagged_by = None,
      save_file_hash = h, reporter_discord_id = reporter\<rparr>"

text \<open>
  Every operation returns its outcome together with the stores as they are afterwards.
  \<open>new_oid\<close> is the key the driver generates for the inserted document.
\<close>

definition create_from_save ::
  "'f env \<Rightarrow> nat \<Rightarrow> 'f db \<Rightarrow> string \<Rightarrow> string \<Rightarrow> bool \<Rightarrow> string
     \<Rightarrow> (error + response) \<times> 'f db" where
  "create_from_save env new_oid s file_bytes reporter cloud discord_message_id =
     (case parse_save env file_bytes of
        Inl e \<Rightarrow> (Inl e, s)
      | Inr d \<Rightarrow>
          (case find (\<lambda>(oid, res). save_file_hash res = sha256 env (unique_data d))
                  (pending_matches s) of
             Some (oid, res) \<Rightarrow> (Inr \<lparr>match_id = oid, repeated = Some True, doc = res\<rparr>, s)
           | None \<Rightarrow>
               (case bind_err
                       (update_all_stats env s
                          (match_id_to_discord s
                             (to_match env d (sha256 env (unique_data d)) reporter cloud
                                discord_message_id)))
                       (\<lambda>(m3, posts). bind_err (require_match m3) (\<lambda>m.
                          bind_err (insert_one (pending_matches s) new_oid m) (\<lambda>coll.
                          Inr (m, coll)))) of
                  Inl e \<Rightarrow> (Inl e, s)
                | Inr (m, coll) \<Rightarrow>
                    (Inr \<lparr>match_id = new_oid, repeated = None, doc = m\<rparr>,
                     s\<lparr>pending_matches := coll\<rparr>))))"

section \<open>Mutation operations\<close>

text \<open>\<open>update_one\<close>/\<open>replace_one\<close> on the pending collection, then the closing read.\<close>

definition write_pending ::
  "'f db \<Rightarrow> nat \<Rightarrow> (MatchModel \<Rightarrow> MatchModel) \<Rightarrow> (error + response) \<times> 'f db" where
  "write_pending s oid f =
     (updated_response (s\<lparr>pending_matches := update_first (pending_matches s) oid f\<rparr>) oid,
      s\<lparr>pending_matches := update_first (pending_matches s) oid f\<rparr>)"

text \<open>\<open>$set\<close> on the fields \<open>players.i.*\<close> of the stored document.\<close>

definition set_player :: "nat \<Rightarrow> (PlayerModel \<Rightarrow> PlayerModel) \<Rightarrow> MatchModel \<Rightarrow> MatchModel" where
  "set_player i f d = d\<lparr>players := (players d)[i := f (players d ! i)]\<rparr>"

definition append_discord_message_id_list ::
  "'f env \<Rightarrow> 'f db \<Rightarrow> string \<Rightarrow> string list \<Rightarrow> (error + response) \<times> 'f db" where
  "append_discord_message_id_list env s mid ids =
     (case to_oid env mid of
        Inl e \<Rightarrow> (Inl e, s)
      | Inr oid \<Rightarrow>
          (case map_of (pending_matches s) oid of
             None \<Rightarrow> (Inl NotFoundError, s)
           | Some res \<Rightarrow>
               write_pending s oid
                 (\<lambda>d. d\<lparr>discord_messages_id_list := discord_messages_id_list res @ ids\<rparr>)))"

text \<open>\<open>str.split(' ')\<close>: every single space separates, so the result is never empty.\<close>

fun split_on :: "char \<Rightarrow> string \<Rightarrow> string list" where
  "split_on c [] = [[]]"
| "split_on c (x # xs) =
     (if x = c then [] # split_on c xs
      else (case split_on c xs of [] \<Rightarrow> [[x]] | w # ws \<Rightarrow> (x # w) # ws))"

text \<open>Python list indexing with an integer: a negative index counts from the end.\<close>

definition py_index :: "'a list \<Rightarrow> int \<Rightarrow> error + 'a" where
  "py_index xs i =
     (if 0 \<le> i \<and> i < int (length xs) then Inr (xs ! nat i)
      else if i < 0 \<and> 0 \<le> int (length xs) + i then Inr (xs ! nat (int (length xs) + i))
      else Inl IndexError)"

definition to_int :: "'f env \<Rightarrow> string \<Rightarrow> error + int" where
  "to_int env str = (case py_int env str of None \<Rightarrow> Inl ValueError | Some v \<Rightarrow> Inr v)"

definition change_order ::
  "'f env \<Rightarrow> 'f db \<Rightarrow> string \<Rightarrow> string \<Rightarrow> string \<Rightarrow> (error + response) \<times> 'f db" where
  "change_order env s mid new_order discord_message_id =
     (case to_oid env mid of
        Inl e \<Rightarrow> (Inl e, s)
      | Inr oid \<Rightarrow>
          (case map_of (pending_matches s) oid of
             None \<Rightarrow> (Inl NotFoundError, s)
           | Some res \<Rightarrow>
               if length (split_on CHR '' '' new_order) \<noteq> num_teams res
               then (Inl (MatchServiceError
                            ''New order length does not match number of players/teams''), s)
               else
                 (case bind_err
                         (mapM_err (\<lambda>player.
                            bind_err (py_index (split_on CHR '' '' new_order) (team player))
                              (\<lambda>tok.
                            bind_err (to_int env tok) (\<lambda>v.
                            Inr (player\<lparr>placement := Some (v - 1)\<rparr>))))
                            (players res))
                         (\<lambda>ps. bind_err (update_all_stats env s (res\<lparr>players := ps\<rparr>))
                         (\<lambda>(m3, posts). require_match m3)) of
                    Inl e \<Rightarrow> (Inl e, s)
                  | Inr m \<Rightarrow>
                      write_pending s oid
                        (fold (\<lambda>(i, player).
                                 set_player i (\<lambda>sp. sp\<lparr>placement := placement player,
                                                      delta := delta player,
                                                      season_delta := season_delta player,
                                                      combined_delta := combined_delta player\<rparr>))
                           (enumerate 0 (players m)) \<circ>
                         (\<lambda>d. d\<lparr>discord_messages_id_list :=
                                  discord_messages_id_list res @ [discord_message_id]\<rparr>)))))"

definition trigger_quit ::
  "'f env \<Rightarrow> 'f db \<Rightarrow> string \<Rightarrow> string \<Rightarrow> string \<Rightarrow> (error + response) \<times> 'f db" where
  "trigger_quit env s mid quitter_discord_id discord_message_id =
     (case to_oid env mid of
        Inl e \<Rightarrow> (Inl e, s)
      | Inr oid \<Rightarrow>
          (case map_of (pending_matches s) oid of
             None \<Rightarrow> (Inl NotFoundError, s)
           | Some res \<Rightarrow>
               write_pending s oid
                 ((\<lambda>d. d\<lparr>discord_messages_id_list :=
                          discord_messages_id_list res @ [discord_message_id]\<rparr>) \<circ>
                  (case find (\<lambda>(i, player). discord_id player = Some quitter_discord_id)
                          (enumerate 0 (players res)) of
                     None \<Rightarrow> id
                   | Some (i, player) \<Rightarrow> set_player i (\<lambda>sp. sp\<lparr>quit := \<not> quit player\<rparr>)))))"

definition assign_discord_id ::
  "'f env \<Rightarrow> 'f db \<Rightarrow> string \<Rightarrow> string \<Rightarrow> string \<Rightarrow> string \<Rightarrow> (error + response) \<times> 'f db" where
  "assign_discord_id env s mid player_id player_discord_id discord_message_id =
     (case to_oid env mid of
        Inl e \<Rightarrow> (Inl e, s)
      | Inr oid \<Rightarrow>
          (case map_of (pending_matches s) oid of
             None \<Rightarrow> (Inl NotFoundError, s)
           | Some res \<Rightarrow>
               (case to_int env player_id of
                  Inl e \<Rightarrow> (Inl e, s)
                | Inr n \<Rightarrow>
                    if n < 1 \<or> n > int (length (players res))
                    then (Inl (MatchServiceError ''Player ID out of range''), s)
                    else
                      (case bind_err
                              (update_all_stats env s
                                 (set_player (nat (n - 1))
                                    (\<lambda>p. p\<lparr>discord_id := Some player_discord_id,
                                           steam_id := discord_to_steam_id s player_discord_id\<rparr>)
                                    res))
                              (\<lambda>(m3, posts). bind_err (require_match m3) (\<lambda>m.
                                 bind_err (nth_err (players m) (nat (n - 1))) (\<lambda>bound.
                                 bind_err (mapM_err (\<lambda>(i, player). nth_err (players m) i)
                                             (enumerate 0 (players res))) (\<lambda>rows.
                                 Inr (bound, rows))))) of
                         Inl e \<Rightarrow> (Inl e, s)
                       | Inr (bound, rows) \<Rightarrow>
                           write_pending s oid
                             (fold (\<lambda>(i, row).
                                      set_player i (\<lambda>sp. sp\<lparr>delta := delta row,
                                                           season_delta := season_delta row\<rparr>))
                                (enumerate 0 rows) \<circ>
                              set_player (nat (n - 1))
                                (\<lambda>sp. sp\<lparr>discord_id := Some player_discord_id,
                                         steam_id := steam_id bound\<rparr>) \<circ>
                              (\<lambda>d. d\<lparr>discord_messages_id_list :=
                                       discord_messages_id_list res @ [discord_message_id]\<rparr>))))))"

definition subbed_out_row :: "'f db \<Rightarrow> PlayerModel \<Rightarrow> string \<Rightarrow> PlayerModel" where
  "subbed_out_row s origin sub_out_discord_id =
     \<lparr>steam_id = discord_to_steam_id s sub_out_discord_id, user_name = None,
      civ = civ origin, team = team origin, leader = leader origin,
      player_alive = player_alive origin, discord_id = Some sub_out_discord_id,
      placement = placement origin, quit = False, delta = 0, season_delta = None,
      combined_delta = None, is_sub = False, subbed_out = True\<rparr>"

text \<open>\<open>list.insert(i, x)\<close> for \<open>0 \<le> i\<close> and \<open>list.pop(i)\<close> for an index in range.\<close>

definition list_insert :: "nat \<Rightarrow> 'a \<Rightarrow> 'a list \<Rightarrow> 'a list" where
  "list_insert i x xs = take i xs @ x # drop i xs"

definition list_pop :: "nat \<Rightarrow> 'a list \<Rightarrow> 'a list" where
  "list_pop i xs = take i xs @ drop (Suc i) xs"

definition assign_sub ::
  "'f env \<Rightarrow> 'f db \<Rightarrow> string \<Rightarrow> string \<Rightarrow> string \<Rightarrow> string \<Rightarrow> (error + response) \<times> 'f db" where
  "assign_sub env s mid sub_in_id sub_out_discord_id discord_message_id =
     (case to_oid env mid of
        Inl e \<Rightarrow> (Inl e, s)
      | Inr oid \<Rightarrow>
          (case map_of (pending_matches s) oid of
             None \<Rightarrow> (Inl NotFoundError, s)
           | Some res \<Rightarrow>
               (case to_int env sub_in_id of
                  Inl e \<Rightarrow> (Inl e, s)
                | Inr n \<Rightarrow>
                    if n < 0 \<or> n \<ge> int (length (players res))
                    then (Inl (MatchServiceError ''Sub in Player ID out of range''), s)
                    else
                      (case bind_err
                              (update_all_stats env s
                                 (res\<lparr>players :=
                                    list_insert (nat n + 1)
                                      (subbed_out_row s
                                         ((players res ! nat n)\<lparr>is_sub := True\<rparr>)
                                         sub_out_discord_id)
                                      ((players res)[nat n :=
                                         (players res ! nat n)\<lparr>is_sub := True\<rparr>])\<rparr>))
                              (\<lambda>(m3, posts). require_match m3) of
                         Inl e \<Rightarrow> (Inl e, s)
                       | Inr m \<Rightarrow>
                           write_pending s oid
                             (\<lambda>d. m\<lparr>discord_messages_id_list :=
                                      discord_messages_id_list res @ [discord_message_id]\<rparr>)))))"

definition remove_sub ::
  "'f env \<Rightarrow> 'f db \<Rightarrow> string \<Rightarrow> string \<Rightarrow> string \<Rightarrow> (error + response) \<times> 'f db" where
  "remove_sub env s mid sub_out_id discord_message_id =
     (case to_oid env mid of
        Inl e \<Rightarrow> (Inl e, s)
      | Inr oid \<Rightarrow>
          (case map_of (pending_matches s) oid of
             None \<Rightarrow> (Inl NotFoundError, s)
           | Some res \<Rightarrow>
               (case to_int env sub_out_id of
                  Inl e \<Rightarrow> (Inl e, s)
                | Inr n \<Rightarrow>
                    if n < 1 \<or> n \<ge> int (length (players res))
                       \<or> \<not> subbed_out (players res ! nat n)
                    then (Inl (MatchServiceError ''Sub in Player ID out of range''), s)
                    else
                      (case bind_err
                              (update_all_stats env s
                                 (res\<lparr>players :=
                                    list_pop (nat n)
                                      ((players res)[nat (n - 1) :=
                                         (players res ! nat (n - 1))\<lparr>is_sub := False\<rparr>])\<rparr>))
                              (\<lambda>(m3, posts). require_match m3) of
                         Inl e \<Rightarrow> (Inl e, s)
                       | Inr m \<Rightarrow>
                           write_pending s oid
                             (\<lambda>d. m\<lparr>discord_messages_id_list :=
                                      discord_messages_id_list res @ [discord_message_id]\<rparr>)))))"

section \<open>Approval (approve\_match)\<close>

text \<open>
  The document \<open>get_player_stats_db\<close> builds for one player in one stat space.  The key
  \<open>civs\<close> is only set when the player has a civilization; the dictionary it updates is
  the one read from the store.
\<close>

definition dict_inc :: "(string \<times> int) list \<Rightarrow> string \<Rightarrow> (string \<times> int) list" where
  "dict_inc d k =
     (case map_of d k of None \<Rightarrow> d @ [(k, 1)] | Some c \<Rightarrow> update_first d k (\<lambda>_. c + 1))"

definition get_player_stats_db ::
  "'f env \<Rightarrow> MatchModel \<Rightarrow> PlayerModel \<Rightarrow> 'f StatModel \<Rightarrow> delta_name \<Rightarrow> error + 'f stat_doc" where
  "get_player_stats_db env m player player_new_stats name =
     (case get_delta name player of
        None \<Rightarrow> Inl TypeError
      | Some d \<Rightarrow>
          bind_err
            (if civ player \<noteq> []
             then (case get_cpl_name env (game m) (civ player) (leader player) of
                     None \<Rightarrow> Inl LibraryError
                   | Some player_civ_leader \<Rightarrow>
                       (case civs player_new_stats of
                          None \<Rightarrow> Inl AttributeError
                        | Some cs \<Rightarrow> Inr (Some (dict_inc cs player_civ_leader))))
             else Inr None)
            (\<lambda>new_civs.
          Inr \<lparr>mu = mu player_new_stats, sigma = sigma player_new_stats,
               games = games player_new_stats + 1,
               wins = wins player_new_stats + (if d > 0 then 1 else 0),
               first = first player_new_stats + (if placement player = Some 0 then 1 else 0),
               subbedIn = subbedIn player_new_stats + (if is_sub player then 1 else 0),
               subbedOut = subbedOut player_new_stats + (if subbed_out player then 1 else 0),
               civs = new_civs, lastModified = utcnow env\<rparr>))"

text \<open>
  The transaction.  A session is the working copy of the stores that the writes made
  with \<open>session=session\<close> act on, with the number of storage calls made so far.
  \<open>faults k\<close> says that the \<open>k\<close>-th storage call of the transaction raises.  Committing
  installs the working copy; aborting drops it, which leaves the stores as they were
  when the transaction started.
\<close>

type_synonym 'f session = "'f db \<times> nat"

definition storage_call ::
  "(nat \<Rightarrow> bool) \<Rightarrow> ('f db \<Rightarrow> error + 'f db) \<Rightarrow> 'f session \<Rightarrow> error + 'f session" where
  "storage_call faults w ss =
     (case ss of (s, k) \<Rightarrow>
        if faults k then Inl PyMongoError else bind_err (w s) (\<lambda>s'. Inr (s', Suc k)))"

definition replace_stat :: "table_name \<Rightarrow> int \<Rightarrow> 'f stat_doc \<Rightarrow> 'f db \<Rightarrow> error + 'f db" where
  "replace_stat tn key d s = Inr (s\<lparr>stats := upsert (stats s) tn (upsert (table_rows s tn) key d)\<rparr>)"

definition inc_subs :: "string option \<Rightarrow> 'f db \<Rightarrow> error + 'f db" where
  "inc_subs key s =
     Inr (s\<lparr>subs_table :=
              (if key \<in> fst ` set (subs_table s)
               then update_first (subs_table s) key (\<lambda>c. c + 1)
               else subs_table s @ [(key, 1)])\<rparr>)"

definition insert_validated :: "nat \<Rightarrow> MatchModel \<Rightarrow> 'f db \<Rightarrow> error + 'f db" where
  "insert_validated new_oid m s =
     bind_err (insert_one (validated_matches s) new_oid m) (\<lambda>coll.
     Inr (s\<lparr>validated_matches := coll\<rparr>))"

definition delete_pending :: "nat \<Rightarrow> 'f db \<Rightarrow> error + 'f db" where
  "delete_pending oid s = Inr (s\<lparr>pending_matches := delete_first (pending_matches s) oid\<rparr>)"

definition post_slot :: "'f post option \<Rightarrow> nat \<Rightarrow> error + 'f StatModel" where
  "post_slot po i = (case po of None \<Rightarrow> Inl TypeError | Some post \<Rightarrow> post_at post i)"

text \<open>\<open>Int64(player.discord_id)\<close>.\<close>

definition player_key :: "'f env \<Rightarrow> PlayerModel \<Rightarrow> error + int" where
  "player_key env player =
     (case discord_id player of None \<Rightarrow> Inl TypeError | Some d \<Rightarrow> to_int env d)"

definition approve_player ::
  "'f env \<Rightarrow> (nat \<Rightarrow> bool) \<Rightarrow> MatchModel
     \<Rightarrow> 'f post option \<Rightarrow> 'f post option \<Rightarrow> 'f post option
     \<Rightarrow> 'f session \<Rightarrow> nat \<times> PlayerModel \<Rightarrow> error + 'f session" where
  "approve_player env faults m post season_post combined_post ss ip =
     (case ip of (i, player) \<Rightarrow>
        bind_err (post_slot post i) (\<lambda>r.
        bind_err (get_player_stats_db env m player r Delta) (\<lambda>player_stats_db.
        bind_err (post_slot season_post i) (\<lambda>sr.
        bind_err (get_player_stats_db env m player sr SeasonDelta) (\<lambda>player_season_stats_db.
        bind_err (post_slot combined_post i) (\<lambda>cr.
        bind_err (get_player_stats_db env m player cr CombinedDelta)
          (\<lambda>player_combined_stats_db.
        bind_err (player_key env player) (\<lambda>key.
        bind_err (storage_call faults
                    (replace_stat (get_stat_table (is_cloud m) (game_mode m) (game m) False False)
                       key player_stats_db) ss) (\<lambda>ss1.
        bind_err (storage_call faults
                    (replace_stat (get_stat_table (is_cloud m) (game_mode m) (game m) True False)
                       key player_season_stats_db) ss1) (\<lambda>ss2.
        bind_err (storage_call faults
                    (replace_stat (get_stat_table (is_cloud m) (game_mode m) (game m) False True)
                       key player_combined_stats_db) ss2) (\<lambda>ss3.
        if is_sub player then storage_call faults (inc_subs (discord_id player)) ss3
        else Inr ss3)))))))))))"

definition transaction_body ::
  "'f env \<Rightarrow> (nat \<Rightarrow> bool) \<Rightarrow> nat \<Rightarrow> nat \<Rightarrow> MatchModel
     \<Rightarrow> 'f post option \<Rightarrow> 'f post option \<Rightarrow> 'f post option \<Rightarrow> 'f db \<Rightarrow> error + 'f db" where
  "transaction_body env faults new_oid oid m post season_post combined_post s =
     bind_err (foldM_err (approve_player env faults m post season_post combined_post) (s, 0)
                 (enumerate 0 (players m))) (\<lambda>ss1.
     bind_err (storage_call faults (insert_validated new_oid m) ss1) (\<lambda>ss2.
     bind_err (storage_call faults (delete_pending oid) ss2) (\<lambda>ss3.
     bind_err (storage_call faults Inr ss3) (\<lambda>ss4.
     Inr (fst ss4)))))"

definition approve_match ::
  "'f env \<Rightarrow> (nat \<Rightarrow> bool) \<Rightarrow> nat \<Rightarrow> 'f db \<Rightarrow> string \<Rightarrow> string \<Rightarrow> (error + response) \<times> 'f db" where
  "approve_match env faults new_oid s mid approver =
     (case to_oid env mid of
        Inl e \<Rightarrow> (Inl e, s)
      | Inr oid \<Rightarrow>
          (case map_of (pending_matches s) oid of
             None \<Rightarrow> (Inl NotFoundError, s)
           | Some res \<Rightarrow>
               if list_ex (\<lambda>player. discord_id player = None) (players res)
               then (Inl (MatchServiceError ''Player has no linked Discord ID''), s)
               else
                 (case bind_err (update_all_stats env s res)
                         (\<lambda>(m3, post, season_post, combined_post).
                          bind_err (require_match m3) (\<lambda>m.
                          Inr (m\<lparr>approved_at := Some (utcnow env),
                                 approver_discord_id := Some approver\<rparr>,
                               post, season_post, combined_post))) of
                    Inl e \<Rightarrow> (Inl e, s)
                  | Inr (m, post, season_post, combined_post) \<Rightarrow>
                      (case transaction_body env faults new_oid oid m
                              post season_post combined_post s of
                         Inl e \<Rightarrow>
                           (Inl (MatchServiceError ''An error occured during writing to DB''), s)
                       | Inr s' \<Rightarrow>
                           (Inr \<lparr>match_id = new_oid, repeated = None, doc = m\<rparr>, s')))))"

section \<open>An example environment\<close>

text \<open>
  A small concrete environment for evaluating the operations: floats are integers, the
  rating library gives ten points to every member of a team placed first and takes ten
  from everybody else, and the parsers know two saves, a duel and a game whose two
  players share one team.
\<close>

definition example_rate ::
  "(int \<times> int) list list \<Rightarrow> int option list \<Rightarrow> (int \<times> int) list list option" where
  "example_rate groups ranks =
     (if length groups < 2 \<or> length ranks \<noteq> length groups then None
      else Some (map (\<lambda>(g, r). map (\<lambda>(m, sg). (if r = Some 0 then m + 10 else m - 10, sg)) g)
                   (zip groups ranks)))"

definition example_player :: "string \<Rightarrow> string \<Rightarrow> int \<Rightarrow> int \<Rightarrow> parsed_player" where
  "example_player sid c t pl =
     \<lparr>pp_steam_id = Some sid, pp_user_name = None, pp_civ = c, pp_team = t,
      pp_leader = None, pp_player_alive = Some True, pp_placement = Some pl,
      pp_quit = False\<rparr>"

definition example_save :: "string \<Rightarrow> int \<Rightarrow> parsed" where
  "example_save title second_team =
     \<lparr>parsed_game = title, parsed_turn = 50, parsed_age = None,
      parsed_map_type = ''Pangaea'', parsed_game_mode = ''Duel'',
      parsed_players = [example_player ''s1'' ''Rome'' 0 0,
                        example_player ''s2'' ''Egypt'' second_team 1],
      parsed_parser_version = ''1''\<rparr>"

definition example_env :: "int env" where
  "example_env =
     \<lparr>rate = example_rate, fsub = (\<lambda>a b. a - b), fadd = (\<lambda>a d. a + d), py_round = Some,
      ts_mu = 1000, ts_sigma = 300, min_points_for_subs = 5,
      py_int = map_of [(''0'', 0), (''1'', 1), (''2'', 2), (''3'', 3),
                       (''100'', 100), (''200'', 200), (''300'', 300)],
      ObjectId = map_of [(''m1'', 1), (''m2'', 2)],
      sha256 = (\<lambda>x. x),
      parse_civ6_save = (\<lambda>b. if b = ''CIV6duel'' then Some (example_save ''civ6'' 1)
                             else if b = ''CIV6solo'' then Some (example_save ''civ6'' 0)
                             else None),
      parse_civ7_save = (\<lambda>b. None),
      get_cpl_name = (\<lambda>g c l. Some c),
      utcnow = 0\<rparr>"

text \<open>Empty stores with one known user, whose platform account is \<open>s1\<close>.\<close>

definition example_db :: "int db" where
  "example_db =
     \<lparr>pending_matches = [], validated_matches = [],
      users = [\<lparr>user_discord_id = Some ''100'', user_steam_id = Some ''s1''\<rparr>],
      subs_table = [], stats = []\<rparr>"

text \<open>The stores after the duel has been ingested, and after one substitution at slot 0.\<close>

definition duel_db :: "int db" where
  "duel_db = snd (create_from_save example_env 1 example_db ''CIV6duel'' ''100'' False ''msg0'')"

definition bound_db :: "int db" where
  "bound_db = snd (assign_discord_id example_env duel_db ''m1'' ''2'' ''200'' ''msg1'')"

definition sub_db :: "int db" where
  "sub_db = snd (assign_sub example_env bound_db ''m1'' ''0'' ''300'' ''msg2'')"

text \<open>A substitution at slot 0 of a match whose slot 0 is already a substitute.\<close>

definition resub_db :: "int db" where
  "resub_db = snd (assign_sub example_env sub_db ''m1'' ''0'' ''300'' ''msg3'')"

text \<open>A substitution at slot 1 of that match, which is the substituted-out row.\<close>

definition double_sub_db :: "int db" where
  "double_sub_db = snd (assign_sub example_env sub_db ''m1'' ''1'' ''300'' ''msg3'')"

section \<open>Notions used in the statements\<close>

text \<open>The player rows of a stored pending match (none when the key is absent).\<close>

definition stored_players :: "'f db \<Rightarrow> nat \<Rightarrow> PlayerModel list" where
  "stored_players s oid =
     (case map_of (pending_matches s) oid of None \<Rightarrow> [] | Some m \<Rightarrow> players m)"

text \<open>The player rows a rating update returns (none when it raises or skips).\<close>

definition players_after ::
  "error + (MatchModel option \<times> 'f post option) \<Rightarrow> PlayerModel list" where
  "players_after r = (case r of Inr (Some m, po) \<Rightarrow> players m | _ \<Rightarrow> [])"

text \<open>A player row without its three delta fields.\<close>

definition clear_deltas :: "PlayerModel \<Rightarrow> PlayerModel" where
  "clear_deltas p = p\<lparr>delta := 0, season_delta := None, combined_delta := None\<rparr>"

text \<open>
  The number of storage calls a complete approval transaction makes: three upserts per
  player, a fourth call for a substitute, then the insert, the delete and the commit.
\<close>

definition storage_calls :: "MatchModel \<Rightarrow> nat" where
  "storage_calls m = sum_list (map (\<lambda>p. if is_sub p then 4 else 3) (players m)) + 3"

text \<open>At most one of the two substitution flags is set, per row and per store.\<close>

definition row_ok :: "PlayerModel \<Rightarrow> bool" where
  "row_ok p = (\<not> (is_sub p \<and> subbed_out p))"

definition flags_ok :: "'f db \<Rightarrow> bool" where
  "flags_ok s = list_all (\<lambda>(oid, m). list_all row_ok (players m)) (pending_matches s)"

text \<open>An insert-substitute request whose slot is in range and holds a substituted-out row.\<close>

definition targets_subbed_out :: "'f env \<Rightarrow> 'f db \<Rightarrow> string \<Rightarrow> string \<Rightarrow> bool" where
  "targets_subbed_out env s mid sub_in_id =
     (case ObjectId env mid of
        None \<Rightarrow> False
      | Some oid \<Rightarrow>
          (case map_of (pending_matches s) oid of
             None \<Rightarrow> False
           | Some res \<Rightarrow>
               (case py_int env sub_in_id of
                  None \<Rightarrow> False
                | Some n \<Rightarrow> 0 \<le> n \<and> n < int (length (players res))
                            \<and> subbed_out (players res ! nat n))))"

text \<open>
  The stores reachable from stores without pending matches by ingestion and the
  mutation operations.  With \<open>guarded\<close>, substitutes are only inserted at slots that
  are not substituted-out rows.
\<close>

inductive reachable :: "bool \<Rightarrow> 'f env \<Rightarrow> 'f db \<Rightarrow> bool" for guarded :: bool and env :: "'f env" where
  start: "pending_matches s = [] \<Longrightarrow> reachable guarded env s"
| ingest: "reachable guarded env s \<Longrightarrow>
     reachable guarded env (snd (create_from_save env new_oid s file_bytes reporter cloud msg))"
| reorder: "reachable guarded env s \<Longrightarrow>
     reachable guarded env (snd (change_order env s mid new_order msg))"
| toggle_quit: "reachable guarded env s \<Longrightarrow>
     reachable guarded env (snd (trigger_quit env s mid quitter msg))"
| bind_identity: "reachable guarded env s \<Longrightarrow>
     reachable guarded env (snd (assign_discord_id env s mid player_id did msg))"
| insert_substitute: "reachable guarded env s \<Longrightarrow>
     (guarded \<Longrightarrow> \<not> targets_subbed_out env s mid sub_in_id) \<Longrightarrow>
     reachable guarded env (snd (assign_sub env s mid sub_in_id did msg))"
| remove_substitute: "reachable guarded env s \<Longrightarrow>
     reachable guarded env (snd (remove_sub env s mid sub_out_id msg))"
| append_ids: "reachable guarded env s \<Longrightarrow>
     reachable guarded env (snd (append_discord_message_id_list env s mid ids))"

text \<open>A match with a row that carries both flags, and the priors looked up for it.\<close>

definition example_row :: "string \<Rightarrow> int \<Rightarrow> int \<Rightarrow> bool \<Rightarrow> bool \<Rightarrow> PlayerModel" where
  "example_row did t pl sub out =
     \<lparr>steam_id = None, user_name = None, civ = ''Rome'', team = t, leader = None,
      player_alive = Some True, discord_id = Some did, placement = Some pl, quit = False,
      delta = 0, season_delta = None, combined_delta = None, is_sub = sub,
      subbed_out = out\<rparr>"

definition both_flags_match :: MatchModel where
  "both_flags_match =
     (to_match example_env (example_save ''civ6'' 1) ''h'' ''100'' False ''msg0'')
       \<lparr>players := [example_row ''100'' 0 0 True False, example_row ''300'' 0 0 True True,
                    example_row ''300'' 0 0 False True, example_row ''200'' 1 1 False False]\<rparr>"

definition example_ranking :: "MatchModel \<Rightarrow> int StatModel list" where
  "example_ranking m =
     (case get_players_ranking example_env example_db m False False of
        Inl e \<Rightarrow> [] | Inr players_ranking \<Rightarrow> players_ranking)"

text \<open>
  What a fresh rating update over all three stat spaces gives for the players of a
  stored pending match (none when the key is absent or the update raises).
\<close>

definition recomputed_players :: "'f env \<Rightarrow> 'f db \<Rightarrow> nat \<Rightarrow> PlayerModel list" where
  "recomputed_players env s oid =
     (case map_of (pending_matches s) oid of
        None \<Rightarrow> []
      | Some m \<Rightarrow>
          (case bind_err (update_all_stats env s m) (\<lambda>(m3, posts). require_match m3) of
             Inl e \<Rightarrow> [] | Inr m' \<Rightarrow> players m'))"

text \<open>The match built from the save whose two players share team 0.\<close>

definition single_team_match :: MatchModel where
  "single_team_match =
     match_id_to_discord example_db
       (to_match example_env (example_save ''civ6'' 0) ''h'' ''100'' False ''msg0'')"

section \<open>Basic facts about the model\<close>

lemma bind_err_simps [simp]:
  "bind_err (Inl e) f = Inl e"
  "bind_err (Inr x) f = f x"
  by (simp_all add: bind_err_def)

lemma bind_err_Inr: "bind_err r f = Inr y \<longleftrightarrow> (\<exists>x. r = Inr x \<and> f x = Inr y)"
  by (cases r) simp_all

lemma nth_err_Inr: "nth_err xs i = Inr x \<longleftrightarrow> i < length xs \<and> xs ! i = x"
  by (auto simp: nth_err_def)

lemma clear_deltas_set_delta [simp]: "clear_deltas (set_delta name v p) = clear_deltas p"
  by (cases name) (simp_all add: clear_deltas_def)

lemma delta_step_result:
  assumes "delta_step env name rk i p post = Inr (p', post')"
  shows "\<exists>d r. i < length rk \<and> computed_delta env (rk ! i) post i p = Inr d
           \<and> post_at post i = Inr r
           \<and> p' = set_delta name (stored_delta env p d) p
           \<and> post' = post[i := Some (r\<lparr>mu := fadd env (mu (rk ! i)) (stored_delta env p d)\<rparr>)]"
  using assms by (auto simp: delta_step_def bind_err_Inr nth_err_Inr)

lemma post_at_update_other: "j \<noteq> i \<Longrightarrow> post_at (post[i := x]) j = post_at post j"
  by (simp add: post_at_def nth_err_def)

lemma computed_delta_update_other:
  "j \<noteq> i \<Longrightarrow> computed_delta env c (post[i := x]) j p = computed_delta env c post j p"
  by (simp add: computed_delta_def post_at_update_other)

lemma apply_deltas_nth:
  assumes "apply_deltas env name rk (enumerate k ps) post = Inr (ps', post')"
      and "j < length ps"
  shows "length ps' = length ps \<and> k + j < length rk \<and>
         (\<exists>d. computed_delta env (rk ! (k + j)) post (k + j) (ps ! j) = Inr d
              \<and> ps' ! j = set_delta name (stored_delta env (ps ! j) d) (ps ! j))"
  using assms
proof (induction ps arbitrary: k post ps' j)
  case Nil
  then show ?case by simp
next
  case (Cons p ps)
  from Cons.prems(1) obtain p1 post1 ps1 where
    step: "delta_step env name rk k p post = Inr (p1, post1)" and
    rest: "apply_deltas env name rk (enumerate (Suc k) ps) post1 = Inr (ps1, post')" and
    res: "ps' = p1 # ps1"
    by (auto simp: bind_err_Inr)
  from delta_step_result[OF step] obtain d r where
    d: "k < length rk" "computed_delta env (rk ! k) post k p = Inr d"
       "p1 = set_delta name (stored_delta env p d) p"
       "post1 = post[k := Some (r\<lparr>mu := fadd env (mu (rk ! k)) (stored_delta env p d)\<rparr>)]"
    by blast
  show ?case
  proof (cases j)
    case 0
    have "length ps1 = length ps"
    proof (cases ps)
      case Nil
      with rest show ?thesis by simp
    next
      case (Cons q qs)
      then have "0 < length ps" by simp
      from Cons.IH[OF rest this] show ?thesis by simp
    qed
    with 0 d res show ?thesis by simp
  next
    case (Suc j')
    with Cons.prems(2) have j': "j' < length ps" by simp
    from Cons.IH[OF rest j'] obtain d' where
      ih: "length ps1 = length ps" "Suc k + j' < length rk"
          "computed_delta env (rk ! (Suc k + j')) post1 (Suc k + j') (ps ! j') = Inr d'"
          "ps1 ! j' = set_delta name (stored_delta env (ps ! j') d') (ps ! j')"
      by blast
    have "computed_delta env (rk ! (Suc k + j')) post (Suc k + j') (ps ! j') = Inr d'"
      using ih(3) d(4) by (simp add: computed_delta_update_other)
    with ih Suc res show ?thesis by simp
  qed
qed

lemma apply_deltas_length:
  "apply_deltas env name rk (enumerate k ps) post = Inr (ps', post') \<Longrightarrow> length ps' = length ps"
  by (induction ps arbitrary: k post ps') (auto simp: bind_err_Inr)

lemma apply_deltas_clear:
  assumes "apply_deltas env name rk (enumerate k ps) post = Inr (ps', post')"
  shows "map clear_deltas ps' = map clear_deltas ps"
proof (rule nth_equalityI)
  show "length (map clear_deltas ps') = length (map clear_deltas ps)"
    using apply_deltas_length[OF assms] by simp
next
  fix i assume "i < length (map clear_deltas ps')"
  then have i: "i < length ps" using apply_deltas_length[OF assms] by simp
  from apply_deltas_nth[OF assms i] show "map clear_deltas ps' ! i = map clear_deltas ps ! i"
    using i by auto
qed

lemma update_player_stats_shape:
  assumes "update_player_stats env mo rk name = Inr (mo', po)"
  shows "\<exists>m ps' post post'. mo = Some m \<and> 1 < num_teams m \<and> posterior env m rk = Inr post
           \<and> apply_deltas env name rk (enumerate 0 (players m)) post = Inr (ps', post')
           \<and> mo' = Some (m\<lparr>players := ps'\<rparr>) \<and> po = Some post'"
  using assms
  by (auto simp: update_player_stats_def validation_msg_id_def bind_err_Inr
           split: option.splits if_splits)

lemma update_player_stats_clear:
  assumes "update_player_stats env mo rk name = Inr (mo', po)"
  shows "\<exists>m ps'. mo = Some m \<and> mo' = Some (m\<lparr>players := ps'\<rparr>)
           \<and> map clear_deltas ps' = map clear_deltas (players m)"
  using update_player_stats_shape[OF assms] apply_deltas_clear by blast

lemma update_all_stats_clear:
  assumes "update_all_stats env s m = Inr (mo, posts)"
  shows "\<exists>ps'. mo = Some (m\<lparr>players := ps'\<rparr>)
           \<and> map clear_deltas ps' = map clear_deltas (players m)"
proof -
  from assms obtain r1 r2 r3 m1 p1 m2 p2 p3 where
    u1: "update_player_stats env (Some m) r1 Delta = Inr (m1, p1)" and
    u2: "update_player_stats env m1 r2 SeasonDelta = Inr (m2, p2)" and
    u3: "update_player_stats env m2 r3 CombinedDelta = Inr (mo, p3)"
    by (auto simp: update_all_stats_def bind_err_Inr)
  from update_player_stats_clear[OF u1] obtain ps1 where
    a: "m1 = Some (m\<lparr>players := ps1\<rparr>)" "map clear_deltas ps1 = map clear_deltas (players m)"
    by auto
  from update_player_stats_clear[OF u2] a obtain ps2 where
    b: "m2 = Some (m\<lparr>players := ps2\<rparr>)" "map clear_deltas ps2 = map clear_deltas (players m)"
    by auto
  from update_player_stats_clear[OF u3] b obtain ps3 where
    c: "mo = Some (m\<lparr>players := ps3\<rparr>)" "map clear_deltas ps3 = map clear_deltas (players m)"
    by auto
  then show ?thesis by blast
qed

lemma rated_match:
  assumes "bind_err (update_all_stats env s m) (\<lambda>(m3, posts). require_match m3) = Inr m'"
  shows "\<exists>ps'. m' = m\<lparr>players := ps'\<rparr> \<and> map clear_deltas ps' = map clear_deltas (players m)"
proof -
  from assms obtain m3 posts where
    u: "update_all_stats env s m = Inr (m3, posts)" and r: "require_match m3 = Inr m'"
    by (auto simp: bind_err_Inr)
  from update_all_stats_clear[OF u] r show ?thesis
    by (auto simp: require_match_def)
qed

lemma map_of_update_first:
  "map_of coll k = Some v \<Longrightarrow> map_of (update_first coll k f) k = Some (f v)"
  by (induction coll k f rule: update_first.induct) auto

lemma write_pending_found:
  "map_of (pending_matches s) oid = Some res \<Longrightarrow>
   write_pending s oid f =
     (Inr \<lparr>match_id = oid, repeated = None, doc = f res\<rparr>,
      s\<lparr>pending_matches := update_first (pending_matches s) oid f\<rparr>)"
  by (simp add: write_pending_def updated_response_def map_of_update_first)

lemma set_player_keeps:
  assumes "\<And>p. g (f p) = g p"
  shows "map g (players (set_player i f d)) = map g (players d)"
proof (cases "i < length (players d)")
  case True
  then show ?thesis
    by (simp add: set_player_def map_update assms list_update_same_conv)
next
  case False
  then show ?thesis by (simp add: set_player_def list_update_beyond)
qed

lemma fold_set_player_keeps:
  assumes "\<And>x p. g (f x p) = g p"
  shows "map g (players (fold (\<lambda>(i, x). set_player i (f x)) ixs d)) = map g (players d)"
proof (induction ixs arbitrary: d)
  case Nil
  show ?case by simp
next
  case (Cons ix ixs)
  obtain i x where ix: "ix = (i, x)" by (cases ix)
  show ?case
    using Cons.IH[of "set_player i (f x) d"] set_player_keeps[of g "f x" i d] assms
    by (simp add: ix)
qed

lemma bind_identity_changes_keep:
  "map combined_delta (players
     (fold (\<lambda>(i, row). set_player i (\<lambda>sp. sp\<lparr>delta := delta row,
                                            season_delta := season_delta row\<rparr>)) irows
        (set_player k (\<lambda>sp. sp\<lparr>discord_id := did, steam_id := sid\<rparr>) d)))
   = map combined_delta (players d)"
  by (simp add: fold_set_player_keeps
        [where f = "\<lambda>row sp. sp\<lparr>delta := delta row, season_delta := season_delta row\<rparr>"]
        set_player_keeps)

section \<open>Reorder validation\<close>

text \<open>
  Claim C9.  A change-order call on an existing pending match whose new-order string
  has a number of space-separated tokens different from the number of distinct teams
  raises the validation error, and the stores are exactly as before: nothing is
  written.
\<close>

theorem change_order_wrong_length_rejected:
  assumes "ObjectId env mid = Some oid"
      and "map_of (pending_matches s) oid = Some res"
      and "length (split_on CHR '' '' new_order) \<noteq> num_teams res"
  shows "change_order env s mid new_order discord_message_id =
           (Inl (MatchServiceError ''New order length does not match number of players/teams''),
            s)"
  using assms by (simp add: change_order_def to_oid_def)

theorem change_order_wrong_length_rejected_witness:
  "\<exists>res. ObjectId example_env ''m1'' = Some 1
       \<and> map_of (pending_matches duel_db) 1 = Some res
       \<and> length (split_on CHR '' '' ''1 2 3'') \<noteq> num_teams res
       \<and> change_order example_env duel_db ''m1'' ''1 2 3'' ''msg9'' =
           (Inl (MatchServiceError ''New order length does not match number of players/teams''),
            duel_db)"
proof -
  have oid: "ObjectId example_env ''m1'' = Some 1"
    by (simp add: example_env_def)
  have "case map_of (pending_matches duel_db) 1 of
          None \<Rightarrow> False
        | Some res \<Rightarrow> length (split_on CHR '' '' ''1 2 3'') \<noteq> num_teams res"
    by code_simp
  then obtain res where
    res: "map_of (pending_matches duel_db) 1 = Some res" and
    len: "length (split_on CHR '' '' ''1 2 3'') \<noteq> num_teams res"
    by (auto split: option.splits)
  from change_order_wrong_length_rejected[OF oid res len, of "''msg9''"] oid res len
  show ?thesis by blast
qed

section \<open>Matches with a single team\<close>

text \<open>
  Claim C4.  For a match whose players span at most one team the rating update does
  not return: building the message of the skip reads a field the match model does not
  have, so the call raises \<open>AttributeError\<close> before the \<open>return None, None\<close> that
  follows it, whatever the rating library and the priors are.
\<close>

theorem update_player_stats_single_team_raises:
  assumes "num_teams m \<le> 1"
  shows "update_player_stats env (Some m) players_ranking name = Inl AttributeError"
  using assms by (simp add: update_player_stats_def validation_msg_id_def)

theorem update_player_stats_single_team_raises_witness:
  "num_teams single_team_match \<le> 1
   \<and> update_player_stats example_env (Some single_team_match)
        (example_ranking single_team_match) Delta = Inl AttributeError"
proof -
  have one: "num_teams single_team_match \<le> 1"
    by code_simp
  from update_player_stats_single_team_raises[OF one] one show ?thesis
    by blast
qed

text \<open>Ingesting the save with a single team raises and stores nothing.\<close>

lemma single_team_ingestion_raises:
  "create_from_save example_env 1 example_db ''CIV6solo'' ''100'' False ''msg0''
     = (Inl AttributeError, example_db)"
  by code_simp

section \<open>Binding an identity\<close>

text \<open>
  Claim C5.  A successful bind-identity call writes \<open>delta\<close> and \<open>season_delta\<close> of
  every row, but no \<open>combined_delta\<close>: the persisted record keeps the combined deltas it
  had before the call, whatever the recomputation gave.
\<close>

theorem assign_discord_id_keeps_old_combined_delta:
  assumes "assign_discord_id env s mid player_id player_discord_id discord_message_id
             = (Inr r, s')"
      and "ObjectId env mid = Some oid"
      and "map_of (pending_matches s) oid = Some res"
  shows "map combined_delta (players (doc r)) = map combined_delta (players res)
         \<and> map_of (pending_matches s') oid = Some (doc r)"
  using assms
  by (auto simp: assign_discord_id_def to_oid_def write_pending_found map_of_update_first
                 bind_identity_changes_keep
           split: sum.splits if_splits)

theorem assign_discord_id_keeps_old_combined_delta_witness:
  "map combined_delta (stored_players duel_db 1) = [Some 10, Some 0]
   \<and> map combined_delta (stored_players bound_db 1) = [Some 10, Some 0]
   \<and> map combined_delta (recomputed_players example_env bound_db 1) = [Some 10, Some (- 10)]
   \<and> map delta (stored_players bound_db 1) = [10, - 10]
   \<and> map season_delta (stored_players bound_db 1) = [Some 10, Some (- 10)]"
proof -
  have oid: "ObjectId example_env ''m1'' = Some 1"
    by (simp add: example_env_def)
  have "case assign_discord_id example_env duel_db ''m1'' ''2'' ''200'' ''msg1'' of
          (Inr r, s') \<Rightarrow> (case map_of (pending_matches duel_db) 1 of
                            Some res \<Rightarrow> True | None \<Rightarrow> False)
        | (Inl e, s') \<Rightarrow> False"
    by code_simp
  then obtain r s' res where
    run: "assign_discord_id example_env duel_db ''m1'' ''2'' ''200'' ''msg1'' = (Inr r, s')" and
    res: "map_of (pending_matches duel_db) 1 = Some res"
    by (auto split: prod.splits sum.splits option.splits)
  have s': "s' = bound_db"
    using run by (simp add: bound_db_def)
  note k = assign_discord_id_keeps_old_combined_delta[OF run oid res, unfolded s']
  from k have a: "map combined_delta (players (doc r)) = map combined_delta (players res)"
    by (rule conjunct1)
  from k have b: "map_of (pending_matches bound_db) 1 = Some (doc r)"
    by (rule conjunct2)
  have "map combined_delta (stored_players bound_db 1)
          = map combined_delta (stored_players duel_db 1)"
    by (simp only: stored_players_def b res option.case a)
  moreover have "map combined_delta (stored_players duel_db 1) = [Some 10, Some 0]"
    by code_simp
  moreover have
    "map combined_delta (recomputed_players example_env bound_db 1) = [Some 10, Some (- 10)]"
    by code_simp
  moreover have "map delta (stored_players bound_db 1) = [10, - 10]"
    by code_simp
  moreover have "map season_delta (stored_players bound_db 1) = [Some 10, Some (- 10)]"
    by code_simp
  ultimately show ?thesis by simp
qed

section \<open>Substitutions\<close>

lemma length_list_insert [simp]: "length (list_insert j x xs) = Suc (length xs)"
  by (simp add: list_insert_def)

lemma list_insert_nth_at: "j \<le> length xs \<Longrightarrow> list_insert j x xs ! j = x"
  by (simp add: list_insert_def nth_append)

lemma list_insert_nth_before: "i < j \<Longrightarrow> j \<le> length xs \<Longrightarrow> list_insert j x xs ! i = xs ! i"
  by (simp add: list_insert_def nth_append)

lemma list_pop_list_insert [simp]: "j \<le> length xs \<Longrightarrow> list_pop j (list_insert j x xs) = xs"
  by (simp add: list_pop_def list_insert_def)

lemma list_insert_update_before:
  "i < j \<Longrightarrow> j \<le> length xs \<Longrightarrow> (list_insert j x xs)[i := y] = list_insert j x (xs[i := y])"
  by (simp add: list_insert_def list_update_append take_update_swap)

lemma length_list_pop: "j < length xs \<Longrightarrow> length (list_pop j xs) = length xs - 1"
  by (simp add: list_pop_def)

lemma map_list_pop: "map f (list_pop j xs) = list_pop j (map f xs)"
  by (simp add: list_pop_def take_map drop_map)

lemma clear_deltas_fields:
  assumes "clear_deltas p = clear_deltas q"
  shows "civ p = civ q" "leader p = leader q" "team p = team q" "placement p = placement q"
        "player_alive p = player_alive q" "is_sub p = is_sub q" "subbed_out p = subbed_out q"
        "discord_id p = discord_id q" "steam_id p = steam_id q" "quit p = quit q"
        "user_name p = user_name q"
  using assms by (cases p; cases q; simp add: clear_deltas_def)+

lemma map_eq_nth: "map f xs = map f ys \<Longrightarrow> i < length ys \<Longrightarrow> f (xs ! i) = f (ys ! i)"
  by (metis length_map nth_map)

lemma clear_deltas_is_sub_update:
  "clear_deltas (p\<lparr>is_sub := b\<rparr>) = (clear_deltas p)\<lparr>is_sub := b\<rparr>"
  by (simp add: clear_deltas_def)

lemma map_clear_mark:
  assumes "map clear_deltas ys = map clear_deltas zs"
  shows "map clear_deltas (ys[k := (ys ! k)\<lparr>is_sub := b\<rparr>])
           = map clear_deltas (zs[k := (zs ! k)\<lparr>is_sub := b\<rparr>])"
proof -
  have len: "length ys = length zs"
    using assms by (rule map_eq_imp_length_eq)
  show ?thesis
  proof (cases "k < length zs")
    case True
    with assms have "clear_deltas (ys ! k) = clear_deltas (zs ! k)"
      by (rule map_eq_nth)
    then show ?thesis
      using assms by (simp add: map_update clear_deltas_is_sub_update)
  next
    case False
    with len assms show ?thesis by (simp add: list_update_beyond)
  qed
qed

lemma assign_sub_success:
  assumes "assign_sub env s mid sub_in_id did msg = (Inr r, s')"
      and "ObjectId env mid = Some oid"
      and "map_of (pending_matches s) oid = Some res"
      and "py_int env sub_in_id = Some n"
  shows "0 \<le> n \<and> n < int (length (players res))
         \<and> map_of (pending_matches s') oid = Some (doc r)
         \<and> map clear_deltas (players (doc r)) =
             map clear_deltas
               (list_insert (nat n + 1)
                  (subbed_out_row s ((players res ! nat n)\<lparr>is_sub := True\<rparr>) did)
                  ((players res)[nat n := (players res ! nat n)\<lparr>is_sub := True\<rparr>]))"
  using assms
  by (auto simp: assign_sub_def to_oid_def to_int_def write_pending_found map_of_update_first
           split: sum.splits if_splits dest!: rated_match)

lemma remove_sub_success:
  assumes "remove_sub env s mid sub_out_id msg = (Inr r, s')"
      and "ObjectId env mid = Some oid"
      and "map_of (pending_matches s) oid = Some res"
      and "py_int env sub_out_id = Some n"
  shows "1 \<le> n \<and> n < int (length (players res)) \<and> subbed_out (players res ! nat n)
         \<and> map_of (pending_matches s') oid = Some (doc r)
         \<and> map clear_deltas (players (doc r)) =
             map clear_deltas
               (list_pop (nat n)
                  ((players res)[nat (n - 1) := (players res ! nat (n - 1))\<lparr>is_sub := False\<rparr>]))"
  using assms
  by (auto simp: remove_sub_def to_oid_def to_int_def write_pending_found map_of_update_first
           split: sum.splits if_splits dest!: rated_match)

text \<open>
  Claim C8.  A successful insert-substitute at the 0-based slot \<open>n\<close> of a pending match
  stores a match with one more row, in which slot \<open>n\<close> is marked \<open>is_sub\<close> and the row
  right after it has the civilization, leader, team, placement and alive flag that
  slot \<open>n\<close> had before the call, with \<open>subbed_out\<close> set and \<open>is_sub\<close> clear.
\<close>

theorem assign_sub_inserts_copy_of_slot:
  assumes "assign_sub env s mid sub_in_id sub_out_discord_id discord_message_id = (Inr r, s')"
      and "ObjectId env mid = Some oid"
      and "map_of (pending_matches s) oid = Some res"
      and "py_int env sub_in_id = Some n"
  shows "0 \<le> n \<and> n < int (length (players res))
         \<and> map_of (pending_matches s') oid = Some (doc r)
         \<and> length (players (doc r)) = Suc (length (players res))
         \<and> is_sub (players (doc r) ! nat n)
         \<and> civ (players (doc r) ! (nat n + 1)) = civ (players res ! nat n)
         \<and> leader (players (doc r) ! (nat n + 1)) = leader (players res ! nat n)
         \<and> team (players (doc r) ! (nat n + 1)) = team (players res ! nat n)
         \<and> placement (players (doc r) ! (nat n + 1)) = placement (players res ! nat n)
         \<and> player_alive (players (doc r) ! (nat n + 1)) = player_alive (players res ! nat n)
         \<and> subbed_out (players (doc r) ! (nat n + 1))
         \<and> \<not> is_sub (players (doc r) ! (nat n + 1))"
proof -
  let ?origin = "(players res ! nat n)\<lparr>is_sub := True\<rparr>"
  let ?row = "subbed_out_row s ?origin sub_out_discord_id"
  let ?L = "list_insert (nat n + 1) ?row ((players res)[nat n := ?origin])"
  from assign_sub_success[OF assms] have
    n: "0 \<le> n" "n < int (length (players res))" and
    st: "map_of (pending_matches s') oid = Some (doc r)" and
    eq: "map clear_deltas (players (doc r)) = map clear_deltas ?L"
    by simp_all
  from n have k: "nat n < length (players res)" by simp
  from eq have len: "length (players (doc r)) = Suc (length (players res))"
    using map_eq_imp_length_eq by fastforce
  have at_n: "?L ! nat n = ?origin"
    using k by (simp add: list_insert_nth_before)
  have at_Suc: "?L ! (nat n + 1) = ?row"
    using k by (simp add: list_insert_nth_at)
  have c0: "clear_deltas (players (doc r) ! nat n) = clear_deltas (?L ! nat n)"
    using eq k by (intro map_eq_nth) simp_all
  have c1: "clear_deltas (players (doc r) ! (nat n + 1)) = clear_deltas (?L ! (nat n + 1))"
    using eq k by (intro map_eq_nth) simp_all
  note f0 = clear_deltas_fields[OF c0, unfolded at_n]
  note f1 = clear_deltas_fields[OF c1, unfolded at_Suc]
  have "is_sub (players (doc r) ! nat n)"
    using f0(6) by simp
  moreover have
    "civ (players (doc r) ! (nat n + 1)) = civ (players res ! nat n)"
    "leader (players (doc r) ! (nat n + 1)) = leader (players res ! nat n)"
    "team (players (doc r) ! (nat n + 1)) = team (players res ! nat n)"
    "placement (players (doc r) ! (nat n + 1)) = placement (players res ! nat n)"
    "player_alive (players (doc r) ! (nat n + 1)) = player_alive (players res ! nat n)"
    "subbed_out (players (doc r) ! (nat n + 1))"
    "\<not> is_sub (players (doc r) ! (nat n + 1))"
    using f1 by (simp_all add: subbed_out_row_def)
  ultimately show ?thesis using n st len by simp
qed

theorem assign_sub_inserts_copy_of_slot_witness:
  "\<exists>r res. assign_sub example_env bound_db ''m1'' ''0'' ''300'' ''msg2'' = (Inr r, sub_db)
     \<and> ObjectId example_env ''m1'' = Some 1
     \<and> map_of (pending_matches bound_db) 1 = Some res
     \<and> py_int example_env ''0'' = Some 0
     \<and> length (players (doc r)) = Suc (length (players res))
     \<and> is_sub (players (doc r) ! 0)
     \<and> civ (players (doc r) ! 1) = civ (players res ! 0)
     \<and> leader (players (doc r) ! 1) = leader (players res ! 0)
     \<and> team (players (doc r) ! 1) = team (players res ! 0)
     \<and> placement (players (doc r) ! 1) = placement (players res ! 0)
     \<and> player_alive (players (doc r) ! 1) = player_alive (players res ! 0)
     \<and> subbed_out (players (doc r) ! 1)
     \<and> \<not> is_sub (players (doc r) ! 1)"
proof -
  have oid: "ObjectId example_env ''m1'' = Some 1"
    by (simp add: example_env_def)
  have idx: "py_int example_env ''0'' = Some 0"
    by (simp add: example_env_def)
  have "case assign_sub example_env bound_db ''m1'' ''0'' ''300'' ''msg2'' of
          (Inr r, s') \<Rightarrow> (case map_of (pending_matches bound_db) 1 of
                            Some res \<Rightarrow> True | None \<Rightarrow> False)
        | (Inl e, s') \<Rightarrow> False"
    by code_simp
  then obtain r s' res where
    run: "assign_sub example_env bound_db ''m1'' ''0'' ''300'' ''msg2'' = (Inr r, s')" and
    res: "map_of (pending_matches bound_db) 1 = Some res"
    by (auto split: prod.splits sum.splits option.splits)
  have s': "s' = sub_db"
    using run by (simp add: sub_db_def)
  from assign_sub_inserts_copy_of_slot[OF run oid res idx] run oid res idx s'
  show ?thesis by auto
qed

section \<open>Removing a substitute\<close>

text \<open>
  Claim C6, as stated, fails.  In the stored match of \<open>sub_db\<close> the rows are a
  substitute, the player substituted out, and a regular player.  The row at 1-based
  position 1 is not substituted out, yet \<open>remove_sub\<close> with index 1 succeeds and deletes
  the second row; the row at 1-based position 2 is the substituted-out one, yet
  \<open>remove_sub\<close> with index 2 is rejected.
\<close>

theorem remove_sub_one_based_counterexample:
  "map subbed_out (stored_players sub_db 1) = [False, True, False]
   \<and> map subbed_out (stored_players (snd (remove_sub example_env sub_db ''m1'' ''1'' ''msg3'')) 1)
       = [False, False]
   \<and> remove_sub example_env sub_db ''m1'' ''2'' ''msg3''
       = (Inl (MatchServiceError ''Sub in Player ID out of range''), sub_db)"
  by code_simp

text \<open>
  Claim C6, amended.  \<open>remove_sub\<close> reads its index \<open>n\<close> as the 0-based position of the
  substituted-out row.  A call on an existing pending match succeeds only when
  \<open>1 \<le> n < number of rows\<close> and row \<open>n\<close> (0-based) is marked \<open>subbed_out\<close>; the stored
  rows are then, up to the recomputed deltas, the old rows with \<open>is_sub\<close> cleared on row
  \<open>n - 1\<close> and row \<open>n\<close> deleted.  Otherwise the call raises the validation error and
  the stores are unchanged.
\<close>

theorem remove_sub_zero_based:
  assumes "ObjectId env mid = Some oid"
      and "map_of (pending_matches s) oid = Some res"
      and "py_int env sub_out_id = Some n"
  shows "(\<not> (1 \<le> n \<and> n < int (length (players res)) \<and> subbed_out (players res ! nat n))
            \<longrightarrow> remove_sub env s mid sub_out_id discord_message_id
                  = (Inl (MatchServiceError ''Sub in Player ID out of range''), s))
         \<and> (\<forall>r s'. remove_sub env s mid sub_out_id discord_message_id = (Inr r, s')
              \<longrightarrow> 1 \<le> n \<and> n < int (length (players res)) \<and> subbed_out (players res ! nat n)
                  \<and> map_of (pending_matches s') oid = Some (doc r)
                  \<and> map clear_deltas (players (doc r)) =
                      map clear_deltas
                        (list_pop (nat n)
                           ((players res)[nat (n - 1) :=
                              (players res ! nat (n - 1))\<lparr>is_sub := False\<rparr>])))"
proof (intro conjI impI allI)
  assume "\<not> (1 \<le> n \<and> n < int (length (players res)) \<and> subbed_out (players res ! nat n))"
  with assms show "remove_sub env s mid sub_out_id discord_message_id
                  = (Inl (MatchServiceError ''Sub in Player ID out of range''), s)"
    by (auto simp: remove_sub_def to_oid_def to_int_def)
next
  fix r s'
  assume run: "remove_sub env s mid sub_out_id discord_message_id = (Inr r, s')"
  from remove_sub_success[OF run assms]
  show "1 \<le> n" "n < int (length (players res))" "subbed_out (players res ! nat n)"
       "map_of (pending_matches s') oid = Some (doc r)"
       "map clear_deltas (players (doc r)) =
          map clear_deltas
            (list_pop (nat n)
               ((players res)[nat (n - 1) := (players res ! nat (n - 1))\<lparr>is_sub := False\<rparr>]))"
    by simp_all
qed

theorem remove_sub_zero_based_witness:
  "\<exists>res r s'. ObjectId example_env ''m1'' = Some 1
     \<and> map_of (pending_matches sub_db) 1 = Some res
     \<and> py_int example_env ''1'' = Some 1
     \<and> py_int example_env ''2'' = Some 2
     \<and> \<not> (1 \<le> (2::int) \<and> 2 < int (length (players res)) \<and> subbed_out (players res ! nat 2))
     \<and> remove_sub example_env sub_db ''m1'' ''2'' ''msg3''
           = (Inl (MatchServiceError ''Sub in Player ID out of range''), sub_db)
     \<and> remove_sub example_env sub_db ''m1'' ''1'' ''msg3'' = (Inr r, s')
     \<and> subbed_out (players res ! nat 1)
     \<and> map clear_deltas (players (doc r)) =
          map clear_deltas
            (list_pop (nat 1) ((players res)[nat (1 - 1) :=
                                 (players res ! nat (1 - 1))\<lparr>is_sub := False\<rparr>]))"
proof -
  have oid: "ObjectId example_env ''m1'' = Some 1"
    by (simp add: example_env_def)
  have i1: "py_int example_env ''1'' = Some 1" and i2: "py_int example_env ''2'' = Some 2"
    by (simp_all add: example_env_def)
  have "case map_of (pending_matches sub_db) 1 of
          None \<Rightarrow> False
        | Some res \<Rightarrow>
            \<not> (1 \<le> (2::int) \<and> 2 < int (length (players res)) \<and> subbed_out (players res ! nat 2))
            \<and> (case remove_sub example_env sub_db ''m1'' ''1'' ''msg3'' of
                 (Inr r, s') \<Rightarrow> True | (Inl e, s') \<Rightarrow> False)"
    by code_simp
  then obtain res r s' where
    res: "map_of (pending_matches sub_db) 1 = Some res" and
    bad: "\<not> (1 \<le> (2::int) \<and> 2 < int (length (players res)) \<and> subbed_out (players res ! nat 2))" and
    run: "remove_sub example_env sub_db ''m1'' ''1'' ''msg3'' = (Inr r, s')"
    by (auto split: prod.splits sum.splits option.splits)
  from remove_sub_zero_based[OF oid res i2, of "''msg3''"] bad
  have rej: "remove_sub example_env sub_db ''m1'' ''2'' ''msg3''
           = (Inl (MatchServiceError ''Sub in Player ID out of range''), sub_db)"
    by blast
  from remove_sub_zero_based[OF oid res i1, of "''msg3''"] run
  have ok: "subbed_out (players res ! nat 1)"
     "map clear_deltas (players (doc r)) =
          map clear_deltas
            (list_pop (nat 1) ((players res)[nat (1 - 1) :=
                                 (players res ! nat (1 - 1))\<lparr>is_sub := False\<rparr>]))"
    by blast+
  from oid res i1 i2 bad rej run ok show ?thesis by blast
qed

section \<open>Insert and remove a substitute\<close>

text \<open>
  Claim C7, as stated, fails on the flag.  Slot 0 of the stored match of \<open>sub_db\<close> is
  already a substitute.  Inserting a substitute at slot 0 again and removing the
  inserted row gives back three rows, but slot 0 is no longer marked \<open>is_sub\<close>: the
  round trip is not the identity on that flag.
\<close>

theorem insert_remove_round_trip_counterexample:
  "map is_sub (stored_players sub_db 1) = [True, False, False]
   \<and> map subbed_out (stored_players resub_db 1) = [False, True, True, False]
   \<and> map is_sub (stored_players (snd (remove_sub example_env resub_db ''m1'' ''1'' ''msg4'')) 1)
       = [False, False, False]"
  by code_simp

text \<open>
  Claim C7, amended.  After a successful insert-substitute at slot \<open>n\<close>, the inserted
  row (0-based position \<open>n + 1\<close>) passes the checks of remove-substitute, and a
  successful remove-substitute on it stores, up to the recomputed deltas, the original
  rows with \<open>is_sub\<close> clear on slot \<open>n\<close>: the player count is restored, and the flag of
  slot \<open>n\<close> is restored whenever that slot was not a substitute before.
\<close>

theorem insert_remove_round_trip:
  assumes "assign_sub env s mid sub_in_id sub_out_discord_id msg = (Inr r1, s1)"
      and "ObjectId env mid = Some oid"
      and "map_of (pending_matches s) oid = Some res"
      and "py_int env sub_in_id = Some n"
      and "py_int env sub_out_id = Some (n + 1)"
  shows "1 \<le> n + 1 \<and> n + 1 < int (length (stored_players s1 oid))
         \<and> subbed_out (stored_players s1 oid ! nat (n + 1))
         \<and> (\<forall>r2 s2. remove_sub env s1 mid sub_out_id msg' = (Inr r2, s2)
              \<longrightarrow> length (players (doc r2)) = length (players res)
                  \<and> \<not> is_sub (players (doc r2) ! nat n)
                  \<and> (\<not> is_sub (players res ! nat n)
                       \<longrightarrow> map clear_deltas (players (doc r2)) = map clear_deltas (players res))
                  \<and> map clear_deltas (players (doc r2)) =
                      map clear_deltas
                        ((players res)[nat n := (players res ! nat n)\<lparr>is_sub := False\<rparr>]))"
proof -
  let ?xs = "players res"
  let ?k = "nat n"
  let ?origin = "(?xs ! ?k)\<lparr>is_sub := True\<rparr>"
  let ?row = "subbed_out_row s ?origin sub_out_discord_id"
  let ?L = "list_insert (?k + 1) ?row (?xs[?k := ?origin])"
  from assign_sub_success[OF assms(1-4)] have
    n: "0 \<le> n" "n < int (length ?xs)" and
    st1: "map_of (pending_matches s1) oid = Some (doc r1)" and
    eq1: "map clear_deltas (players (doc r1)) = map clear_deltas ?L"
    by simp_all
  from n have k: "?k < length ?xs" by simp
  have sp: "stored_players s1 oid = players (doc r1)"
    by (simp add: stored_players_def st1)
  from eq1 have len1: "length (players (doc r1)) = Suc (length ?xs)"
    using map_eq_imp_length_eq by fastforce
  have Suc_k: "nat (n + 1) = ?k + 1"
    using n by simp
  have at_Suc: "?L ! (?k + 1) = ?row"
    using k by (simp add: list_insert_nth_at)
  have at_k: "?L ! ?k = ?origin"
    using k by (simp add: list_insert_nth_before)
  have "clear_deltas (players (doc r1) ! (?k + 1)) = clear_deltas (?L ! (?k + 1))"
    using eq1 k by (intro map_eq_nth) simp_all
  note f1 = clear_deltas_fields[OF this, unfolded at_Suc]
  have out: "subbed_out (players (doc r1) ! (?k + 1))"
    using f1(7) by (simp add: subbed_out_row_def)
  have guard: "1 \<le> n + 1" "n + 1 < int (length (stored_players s1 oid))"
    "subbed_out (stored_players s1 oid ! nat (n + 1))"
    using n out by (simp_all add: sp len1 Suc_k)
  have unmark: "?L[?k := (?L ! ?k)\<lparr>is_sub := False\<rparr>]
                  = list_insert (?k + 1) ?row (?xs[?k := (?xs ! ?k)\<lparr>is_sub := False\<rparr>])"
  proof -
    have "?L[?k := (?L ! ?k)\<lparr>is_sub := False\<rparr>] = ?L[?k := ?origin\<lparr>is_sub := False\<rparr>]"
      by (simp only: at_k)
    also have "\<dots> = list_insert (?k + 1) ?row
                       ((?xs[?k := ?origin])[?k := ?origin\<lparr>is_sub := False\<rparr>])"
      using k by (intro list_insert_update_before) simp_all
    also have "\<dots> = list_insert (?k + 1) ?row (?xs[?k := (?xs ! ?k)\<lparr>is_sub := False\<rparr>])"
      by simp
    finally show ?thesis .
  qed
  have popped: "list_pop (?k + 1) (?L[?k := (?L ! ?k)\<lparr>is_sub := False\<rparr>])
                = ?xs[?k := (?xs ! ?k)\<lparr>is_sub := False\<rparr>]"
    unfolding unmark using k by simp
  have trip: "length (players (doc r2)) = length ?xs
              \<and> \<not> is_sub (players (doc r2) ! ?k)
              \<and> (\<not> is_sub (?xs ! ?k)
                   \<longrightarrow> map clear_deltas (players (doc r2)) = map clear_deltas ?xs)
              \<and> map clear_deltas (players (doc r2)) =
                  map clear_deltas (?xs[?k := (?xs ! ?k)\<lparr>is_sub := False\<rparr>])"
    if run: "remove_sub env s1 mid sub_out_id msg' = (Inr r2, s2)" for r2 s2
  proof -
    from remove_sub_success[OF run assms(2) st1 assms(5)] have
      "map clear_deltas (players (doc r2)) =
         map clear_deltas
           (list_pop (nat (n + 1))
              ((players (doc r1))[nat (n + 1 - 1) :=
                 (players (doc r1) ! nat (n + 1 - 1))\<lparr>is_sub := False\<rparr>]))"
      by simp
    then have "map clear_deltas (players (doc r2)) =
         list_pop (?k + 1)
           (map clear_deltas
              ((players (doc r1))[?k := (players (doc r1) ! ?k)\<lparr>is_sub := False\<rparr>]))"
      by (simp add: Suc_k map_list_pop)
    also have "\<dots> = list_pop (?k + 1)
           (map clear_deltas (?L[?k := (?L ! ?k)\<lparr>is_sub := False\<rparr>]))"
      by (simp only: map_clear_mark[OF eq1])
    also have "\<dots> = map clear_deltas (?xs[?k := (?xs ! ?k)\<lparr>is_sub := False\<rparr>])"
      by (simp only: map_list_pop[symmetric] popped)
    finally have eq2: "map clear_deltas (players (doc r2)) =
                  map clear_deltas (?xs[?k := (?xs ! ?k)\<lparr>is_sub := False\<rparr>])" .
    then have len2: "length (players (doc r2)) = length ?xs"
      using map_eq_imp_length_eq by fastforce
    have "clear_deltas (players (doc r2) ! ?k)
            = clear_deltas ((?xs[?k := (?xs ! ?k)\<lparr>is_sub := False\<rparr>]) ! ?k)"
      using eq2 k by (intro map_eq_nth) simp_all
    from clear_deltas_fields(6)[OF this] have flag: "\<not> is_sub (players (doc r2) ! ?k)"
      using k by simp
    have same: "map clear_deltas (players (doc r2)) = map clear_deltas ?xs"
      if "\<not> is_sub (?xs ! ?k)"
    proof -
      from that have "(?xs ! ?k)\<lparr>is_sub := False\<rparr> = ?xs ! ?k"
        by (cases "?xs ! ?k") simp
      then show ?thesis using eq2 by (simp add: list_update_id)
    qed
    from len2 flag same eq2 show ?thesis by blast
  qed
  from guard trip show ?thesis by blast
qed

theorem insert_remove_round_trip_witness:
  "\<exists>r1 res r2 s2.
     assign_sub example_env bound_db ''m1'' ''0'' ''300'' ''msg2'' = (Inr r1, sub_db)
     \<and> ObjectId example_env ''m1'' = Some 1
     \<and> map_of (pending_matches bound_db) 1 = Some res
     \<and> py_int example_env ''0'' = Some 0
     \<and> py_int example_env ''1'' = Some (0 + 1)
     \<and> remove_sub example_env sub_db ''m1'' ''1'' ''msg3'' = (Inr r2, s2)
     \<and> \<not> is_sub (players res ! nat 0)
     \<and> length (players (doc r2)) = length (players res)
     \<and> \<not> is_sub (players (doc r2) ! nat 0)
     \<and> map clear_deltas (players (doc r2)) = map clear_deltas (players res)"
proof -
  have oid: "ObjectId example_env ''m1'' = Some 1"
    by (simp add: example_env_def)
  have i0: "py_int example_env ''0'' = Some 0" and i1: "py_int example_env ''1'' = Some (0 + 1)"
    by (simp_all add: example_env_def)
  have "case assign_sub example_env bound_db ''m1'' ''0'' ''300'' ''msg2'' of
          (Inr r1, s1) \<Rightarrow>
            (case map_of (pending_matches bound_db) 1 of
               Some res \<Rightarrow>
                 \<not> is_sub (players res ! nat 0)
                 \<and> (case remove_sub example_env sub_db ''m1'' ''1'' ''msg3'' of
                      (Inr r2, s2) \<Rightarrow> True | (Inl e, s2) \<Rightarrow> False)
             | None \<Rightarrow> False)
        | (Inl e, s1) \<Rightarrow> False"
    by code_simp
  then obtain r1 s1 res r2 s2 where
    run1: "assign_sub example_env bound_db ''m1'' ''0'' ''300'' ''msg2'' = (Inr r1, s1)" and
    res: "map_of (pending_matches bound_db) 1 = Some res" and
    fresh: "\<not> is_sub (players res ! nat 0)" and
    run2: "remove_sub example_env sub_db ''m1'' ''1'' ''msg3'' = (Inr r2, s2)"
    by (auto split: prod.splits sum.splits option.splits)
  have s1: "s1 = sub_db"
    using run1 by (simp add: sub_db_def)
  from insert_remove_round_trip[OF run1 oid res i0 i1, of "''msg3''"] run2 fresh
  have "length (players (doc r2)) = length (players res)"
       "\<not> is_sub (players (doc r2) ! nat 0)"
       "map clear_deltas (players (doc r2)) = map clear_deltas (players res)"
    unfolding s1 by blast+
  with run1 oid res i0 i1 run2 fresh s1 show ?thesis by blast
qed

section \<open>Idempotent ingestion\<close>

lemma find_append_last:
  "find P (xs @ [y]) =
     (case find P xs of None \<Rightarrow> (if P y then Some y else None) | Some x \<Rightarrow> Some x)"
  by (induction xs) auto

lemma unique_data_content:
  assumes "parsed_game d' = parsed_game d"
      and "parsed_map_type d' = parsed_map_type d"
      and "map (\<lambda>p. (pp_civ p, pp_leader p)) (parsed_players d')
             = map (\<lambda>p. (pp_civ p, pp_leader p)) (parsed_players d)"
  shows "unique_data d' = unique_data d"
proof -
  have "map ((\<lambda>(c, l). c @ (case l of Some x \<Rightarrow> x | None \<Rightarrow> []))
               \<circ> (\<lambda>p. (pp_civ p, pp_leader p))) (parsed_players d')
        = map ((\<lambda>(c, l). c @ (case l of Some x \<Rightarrow> x | None \<Rightarrow> []))
               \<circ> (\<lambda>p. (pp_civ p, pp_leader p))) (parsed_players d)"
    using assms(3) by (simp only: map_map[symmetric])
  then show ?thesis
    using assms(1,2) by (simp add: unique_data_def comp_def)
qed

lemma create_from_save_repeat:
  assumes "parse_save env file_bytes = Inr d"
      and "find (\<lambda>(oid, res). save_file_hash res = sha256 env (unique_data d))
             (pending_matches s) = Some (oid, res)"
  shows "create_from_save env new_oid s file_bytes reporter cloud msg
           = (Inr \<lparr>match_id = oid, repeated = Some True, doc = res\<rparr>, s)"
  using assms by (simp add: create_from_save_def)

lemma create_from_save_stored:
  assumes "parse_save env file_bytes = Inr d"
      and "create_from_save env new_oid s file_bytes reporter cloud msg = (Inr r, s1)"
  shows "find (\<lambda>(oid, res). save_file_hash res = sha256 env (unique_data d))
           (pending_matches s1) = Some (match_id r, doc r)"
proof (cases "find (\<lambda>(oid, res). save_file_hash res = sha256 env (unique_data d))
                (pending_matches s)")
  case (Some found)
  obtain oid res where "found = (oid, res)" by (cases found)
  with Some assms show ?thesis
    by (auto simp: create_from_save_def)
next
  case None
  let ?h = "sha256 env (unique_data d)"
  let ?m0 = "match_id_to_discord s (to_match env d ?h reporter cloud msg)"
  from None assms obtain m coll where
    run: "bind_err (update_all_stats env s ?m0)
            (\<lambda>(m3, posts). bind_err (require_match m3) (\<lambda>m.
               bind_err (insert_one (pending_matches s) new_oid m) (\<lambda>coll. Inr (m, coll))))
          = Inr (m, coll)" and
    r: "r = \<lparr>match_id = new_oid, repeated = None, doc = m\<rparr>" and
    s1: "s1 = s\<lparr>pending_matches := coll\<rparr>"
    by (auto simp: create_from_save_def split: sum.splits)
  from run obtain m3 posts where
    u: "update_all_stats env s ?m0 = Inr (m3, posts)" and
    rq: "require_match m3 = Inr m" and
    ins: "insert_one (pending_matches s) new_oid m = Inr coll"
    by (auto simp: bind_err_Inr)
  from update_all_stats_clear[OF u] rq obtain ps' where "m = ?m0\<lparr>players := ps'\<rparr>"
    by (auto simp: require_match_def)
  then have h: "save_file_hash m = ?h"
    by (simp add: match_id_to_discord_def to_match_def)
  from ins have coll: "coll = pending_matches s @ [(new_oid, m)]"
    by (auto simp: insert_one_def split: if_splits)
  show ?thesis
    by (simp add: s1 coll r find_append_last None h)
qed

lemma unique_data_explicit:
  "unique_data d =
     join '',''
       (parsed_game d # parsed_map_type d #
        map (\<lambda>p. pp_civ p @ (case pp_leader p of None \<Rightarrow> [] | Some l \<Rightarrow> l))
          (parsed_players d))"
  by (simp add: unique_data_def)

lemma create_from_save_new:
  assumes "parse_save env file_bytes = Inr d"
      and "find (\<lambda>(oid, res). save_file_hash res = sha256 env (unique_data d))
             (pending_matches s) = None"
      and "create_from_save env new_oid s file_bytes reporter cloud msg = (Inr r, s1)"
  shows "match_id r = new_oid \<and> repeated r = None
         \<and> save_file_hash (doc r) = sha256 env (unique_data d)
         \<and> pending_matches s1 = pending_matches s @ [(new_oid, doc r)]
         \<and> validated_matches s1 = validated_matches s \<and> stats s1 = stats s
         \<and> subs_table s1 = subs_table s \<and> users s1 = users s"
proof -
  let ?h = "sha256 env (unique_data d)"
  let ?m0 = "match_id_to_discord s (to_match env d ?h reporter cloud msg)"
  from assms obtain m coll where
    run: "bind_err (update_all_stats env s ?m0)
            (\<lambda>(m3, posts). bind_err (require_match m3) (\<lambda>m.
               bind_err (insert_one (pending_matches s) new_oid m) (\<lambda>coll. Inr (m, coll))))
          = Inr (m, coll)" and
    r: "r = \<lparr>match_id = new_oid, repeated = None, doc = m\<rparr>" and
    s1: "s1 = s\<lparr>pending_matches := coll\<rparr>"
    by (auto simp: create_from_save_def split: sum.splits)
  from run obtain m3 posts where
    u: "update_all_stats env s ?m0 = Inr (m3, posts)" and
    rq: "require_match m3 = Inr m" and
    ins: "insert_one (pending_matches s) new_oid m = Inr coll"
    by (auto simp: bind_err_Inr)
  from update_all_stats_clear[OF u] rq obtain ps' where "m = ?m0\<lparr>players := ps'\<rparr>"
    by (auto simp: require_match_def)
  then have h: "save_file_hash m = ?h"
    by (simp add: match_id_to_discord_def to_match_def)
  from ins have coll: "coll = pending_matches s @ [(new_oid, m)]"
    by (auto simp: insert_one_def split: if_splits)
  show ?thesis
    by (simp add: s1 coll r h)
qed

text \<open>
  Claim C3.  The fingerprint of a submission is the SHA-256 digest of the title, the
  map type and, for every player in order, the civilization followed by the leader
  (nothing when there is no leader), joined by commas; nothing else of the submission
  enters it.  When a stored pending match carries that fingerprint, \<open>create_from_save\<close>
  returns the first such match, marked as a repeat, and leaves the stores as they are;
  the result does not depend on the rating library.  When no stored pending match
  carries it, a submission that returns has created one new pending record, which
  carries that fingerprint.  Hence after a submission has returned a record, any
  submission with the same title, map type and pairs, under any rating library,
  reporter and message id, returns the same record reference marked as a repeat, and
  stores nothing.
\<close>

theorem create_from_save_idempotent:
  assumes "parse_save env file_bytes = Inr d"
  shows "(\<forall>oid res.
            find (\<lambda>(oid, res). save_file_hash res =
                    sha256 env (join '',''
                      (parsed_game d # parsed_map_type d #
                       map (\<lambda>p. pp_civ p @ (case pp_leader p of None \<Rightarrow> [] | Some l \<Rightarrow> l))
                         (parsed_players d))))
              (pending_matches s) = Some (oid, res)
            \<longrightarrow> create_from_save env new_oid s file_bytes reporter cloud msg
                  = (Inr \<lparr>match_id = oid, repeated = Some True, doc = res\<rparr>, s))
         \<and> (\<forall>r s1.
              find (\<lambda>(oid, res). save_file_hash res =
                      sha256 env (join '',''
                        (parsed_game d # parsed_map_type d #
                         map (\<lambda>p. pp_civ p @ (case pp_leader p of None \<Rightarrow> [] | Some l \<Rightarrow> l))
                           (parsed_players d))))
                (pending_matches s) = None
              \<and> create_from_save env new_oid s file_bytes reporter cloud msg = (Inr r, s1)
              \<longrightarrow> match_id r = new_oid \<and> repeated r = None
                  \<and> save_file_hash (doc r) =
                      sha256 env (join '',''
                        (parsed_game d # parsed_map_type d #
                         map (\<lambda>p. pp_civ p @ (case pp_leader p of None \<Rightarrow> [] | Some l \<Rightarrow> l))
                           (parsed_players d)))
                  \<and> pending_matches s1 = pending_matches s @ [(new_oid, doc r)])
         \<and> (\<forall>r s1 env' new_oid' file_bytes' d' reporter' cloud' msg'.
              create_from_save env new_oid s file_bytes reporter cloud msg = (Inr r, s1)
              \<and> parse_save env' file_bytes' = Inr d'
              \<and> sha256 env' = sha256 env
              \<and> parsed_game d' = parsed_game d
              \<and> parsed_map_type d' = parsed_map_type d
              \<and> map (\<lambda>p. (pp_civ p, pp_leader p)) (parsed_players d')
                    = map (\<lambda>p. (pp_civ p, pp_leader p)) (parsed_players d)
              \<longrightarrow> create_from_save env' new_oid' s1 file_bytes' reporter' cloud' msg'
                    = (Inr (r\<lparr>repeated := Some True\<rparr>), s1))"
proof (intro conjI allI impI)
  fix oid res
  assume "find (\<lambda>(oid, res). save_file_hash res =
                    sha256 env (join '',''
                      (parsed_game d # parsed_map_type d #
                       map (\<lambda>p. pp_civ p @ (case pp_leader p of None \<Rightarrow> [] | Some l \<Rightarrow> l))
                         (parsed_players d))))
              (pending_matches s) = Some (oid, res)"
  then have "find (\<lambda>(oid, res). save_file_hash res = sha256 env (unique_data d))
            (pending_matches s) = Some (oid, res)"
    by (simp only: unique_data_explicit)
  from create_from_save_repeat[OF assms this]
  show "create_from_save env new_oid s file_bytes reporter cloud msg
          = (Inr \<lparr>match_id = oid, repeated = Some True, doc = res\<rparr>, s)" .
next
  fix r s1
  assume a: "find (\<lambda>(oid, res). save_file_hash res =
                      sha256 env (join '',''
                        (parsed_game d # parsed_map_type d #
                         map (\<lambda>p. pp_civ p @ (case pp_leader p of None \<Rightarrow> [] | Some l \<Rightarrow> l))
                           (parsed_players d))))
                (pending_matches s) = None
              \<and> create_from_save env new_oid s file_bytes reporter cloud msg = (Inr r, s1)"
  then have none: "find (\<lambda>(oid, res). save_file_hash res = sha256 env (unique_data d))
                     (pending_matches s) = None"
    and run: "create_from_save env new_oid s file_bytes reporter cloud msg = (Inr r, s1)"
    by (simp_all only: unique_data_explicit)
  note new = create_from_save_new[OF assms none run, unfolded unique_data_explicit]
  from new show "match_id r = new_oid" by (rule conjunct1)
  from new show "repeated r = None" by blast
  from new show "save_file_hash (doc r) =
                      sha256 env (join '',''
                        (parsed_game d # parsed_map_type d #
                         map (\<lambda>p. pp_civ p @ (case pp_leader p of None \<Rightarrow> [] | Some l \<Rightarrow> l))
                           (parsed_players d)))"
    by blast
  from new show "pending_matches s1 = pending_matches s @ [(new_oid, doc r)]" by blast
next
  fix r s1 and env' :: "'a env" and new_oid' file_bytes' d' reporter' cloud' msg'
  assume a: "create_from_save env new_oid s file_bytes reporter cloud msg = (Inr r, s1)
              \<and> parse_save env' file_bytes' = Inr d'
              \<and> sha256 env' = sha256 env
              \<and> parsed_game d' = parsed_game d
              \<and> parsed_map_type d' = parsed_map_type d
              \<and> map (\<lambda>p. (pp_civ p, pp_leader p)) (parsed_players d')
                    = map (\<lambda>p. (pp_civ p, pp_leader p)) (parsed_players d)"
  then have same: "sha256 env' (unique_data d') = sha256 env (unique_data d)"
    using unique_data_content[of d' d] by simp
  from a have run: "create_from_save env new_oid s file_bytes reporter cloud msg = (Inr r, s1)"
    and p': "parse_save env' file_bytes' = Inr d'"
    by blast+
  have "find (\<lambda>(oid, res). save_file_hash res = sha256 env (unique_data d))
          (pending_matches s1) = Some (match_id r, doc r)"
    by (rule create_from_save_stored[OF assms run])
  then have "find (\<lambda>(oid, res). save_file_hash res = sha256 env' (unique_data d'))
       (pending_matches s1) = Some (match_id r, doc r)"
    by (simp only: same)
  from create_from_save_repeat[OF p' this]
  have "create_from_save env' new_oid' s1 file_bytes' reporter' cloud' msg'
          = (Inr \<lparr>match_id = match_id r, repeated = Some True, doc = doc r\<rparr>, s1)" .
  moreover have "\<lparr>match_id = match_id r, repeated = Some True, doc = doc r\<rparr>
                   = r\<lparr>repeated := Some True\<rparr>"
    by (cases r) simp
  ultimately show "create_from_save env' new_oid' s1 file_bytes' reporter' cloud' msg'
                    = (Inr (r\<lparr>repeated := Some True\<rparr>), s1)"
    by simp
qed

theorem create_from_save_idempotent_witness:
  "\<exists>r. parse_save example_env ''CIV6duel'' = Inr (example_save ''civ6'' 1)
      \<and> find (\<lambda>(oid, res). save_file_hash res = ''civ6,Pangaea,Rome,Egypt'')
           (pending_matches example_db) = None
      \<and> create_from_save example_env 1 example_db ''CIV6duel'' ''100'' False ''msg0''
           = (Inr r, duel_db)
      \<and> match_id r = 1 \<and> repeated r = None
      \<and> save_file_hash (doc r) = ''civ6,Pangaea,Rome,Egypt''
      \<and> pending_matches duel_db = [(1, doc r)]
      \<and> find (\<lambda>(oid, res). save_file_hash res = ''civ6,Pangaea,Rome,Egypt'')
           (pending_matches duel_db) = Some (1, doc r)
      \<and> create_from_save example_env 2 duel_db ''CIV6duel'' ''200'' True ''msg7''
           = (Inr \<lparr>match_id = 1, repeated = Some True, doc = doc r\<rparr>, duel_db)
      \<and> create_from_save (example_env\<lparr>rate := (\<lambda>groups ranks. None)\<rparr>) 2 duel_db
           ''CIV6duel'' ''200'' True ''msg7''
           = (Inr (r\<lparr>repeated := Some True\<rparr>), duel_db)"
proof -
  let ?fp = "sha256 example_env (join '',''
               (parsed_game (example_save ''civ6'' 1) #
                parsed_map_type (example_save ''civ6'' 1) #
                map (\<lambda>p. pp_civ p @ (case pp_leader p of None \<Rightarrow> [] | Some l \<Rightarrow> l))
                  (parsed_players (example_save ''civ6'' 1))))"
  have fp: "?fp = ''civ6,Pangaea,Rome,Egypt''"
    by (simp add: example_env_def example_save_def example_player_def)
  have p: "parse_save example_env ''CIV6duel'' = Inr (example_save ''civ6'' 1)"
    by (simp add: parse_save_def example_env_def)
  have p': "parse_save (example_env\<lparr>rate := (\<lambda>groups ranks. None)\<rparr>) ''CIV6duel''
              = Inr (example_save ''civ6'' 1)"
    by (simp add: parse_save_def example_env_def)
  have none: "find (\<lambda>(oid, res). save_file_hash res = ?fp) (pending_matches example_db) = None"
    by (simp add: example_db_def)
  have "case create_from_save example_env 1 example_db ''CIV6duel'' ''100'' False ''msg0'' of
          (Inr r, s1) \<Rightarrow> True | (Inl e, s1) \<Rightarrow> False"
    by code_simp
  then obtain r s1 where
    run: "create_from_save example_env 1 example_db ''CIV6duel'' ''100'' False ''msg0''
            = (Inr r, s1)"
    by (auto split: prod.splits sum.splits)
  have s1: "s1 = duel_db"
    using run by (simp add: duel_db_def)
  note first = create_from_save_idempotent[OF p, of example_db 1 "''100''" False "''msg0''"]
  note fresh = first[THEN conjunct2, THEN conjunct1, rule_format, OF conjI[OF none run]]
  from fresh have id: "match_id r = 1" by (rule conjunct1)
  from fresh have rep: "repeated r = None" by (rule conjunct2[THEN conjunct1])
  from fresh have h: "save_file_hash (doc r) = ?fp"
    by (rule conjunct2[THEN conjunct2, THEN conjunct1])
  from fresh have "pending_matches s1 = pending_matches example_db @ [(1, doc r)]"
    by (rule conjunct2[THEN conjunct2, THEN conjunct2])
  then have pend: "pending_matches duel_db = [(1, doc r)]"
    by (simp add: s1 example_db_def)
  have found: "find (\<lambda>(oid, res). save_file_hash res = ?fp) (pending_matches duel_db)
                 = Some (1, doc r)"
    by (simp only: pend find.simps prod.case h simp_thms if_True)
  note second = create_from_save_idempotent[OF p, of duel_db 2 "''200''" True "''msg7''"]
  from second[THEN conjunct1, rule_format, OF found]
  have again: "create_from_save example_env 2 duel_db ''CIV6duel'' ''200'' True ''msg7''
           = (Inr \<lparr>match_id = 1, repeated = Some True, doc = doc r\<rparr>, duel_db)" .
  have sha: "sha256 (example_env\<lparr>rate := (\<lambda>groups ranks. None)\<rparr>) = sha256 example_env"
    by simp
  have hyp: "create_from_save example_env 1 example_db ''CIV6duel'' ''100'' False ''msg0''
               = (Inr r, s1)
             \<and> parse_save (example_env\<lparr>rate := (\<lambda>groups ranks. None)\<rparr>) ''CIV6duel''
                 = Inr (example_save ''civ6'' 1)
             \<and> sha256 (example_env\<lparr>rate := (\<lambda>groups ranks. None)\<rparr>) = sha256 example_env
             \<and> parsed_game (example_save ''civ6'' 1) = parsed_game (example_save ''civ6'' 1)
             \<and> parsed_map_type (example_save ''civ6'' 1)
                 = parsed_map_type (example_save ''civ6'' 1)
             \<and> map (\<lambda>p. (pp_civ p, pp_leader p)) (parsed_players (example_save ''civ6'' 1))
                 = map (\<lambda>p. (pp_civ p, pp_leader p)) (parsed_players (example_save ''civ6'' 1))"
    using run p' sha by (intro conjI) (rule refl | assumption)+
  from first[THEN conjunct2, THEN conjunct2, rule_format, OF hyp]
  have third: "create_from_save (example_env\<lparr>rate := (\<lambda>groups ranks. None)\<rparr>) 2 s1
           ''CIV6duel'' ''200'' True ''msg7''
           = (Inr (r\<lparr>repeated := Some True\<rparr>), s1)" .
  have "parse_save example_env ''CIV6duel'' = Inr (example_save ''civ6'' 1)
      \<and> find (\<lambda>(oid, res). save_file_hash res = ?fp) (pending_matches example_db) = None
      \<and> create_from_save example_env 1 example_db ''CIV6duel'' ''100'' False ''msg0''
           = (Inr r, duel_db)
      \<and> match_id r = 1 \<and> repeated r = None
      \<and> save_file_hash (doc r) = ?fp
      \<and> pending_matches duel_db = [(1, doc r)]
      \<and> find (\<lambda>(oid, res). save_file_hash res = ?fp) (pending_matches duel_db)
           = Some (1, doc r)
      \<and> create_from_save example_env 2 duel_db ''CIV6duel'' ''200'' True ''msg7''
           = (Inr \<lparr>match_id = 1, repeated = Some True, doc = doc r\<rparr>, duel_db)
      \<and> create_from_save (example_env\<lparr>rate := (\<lambda>groups ranks. None)\<rparr>) 2 duel_db
           ''CIV6duel'' ''200'' True ''msg7''
           = (Inr (r\<lparr>repeated := Some True\<rparr>), duel_db)"
    using p none run[unfolded s1] id rep h pend found again third[unfolded s1]
    by (intro conjI) assumption+
  then show ?thesis
    unfolding fp by (rule exI)
qed

section \<open>Approval\<close>

lemma storage_call_Inr:
  assumes "storage_call faults w (s, k) = Inr ss'"
  shows "\<not> faults k \<and> (\<exists>s'. w s = Inr s' \<and> ss' = (s', Suc k))"
  using assms by (auto simp: storage_call_def bind_err_Inr split: if_splits)

lemma approve_player_calls:
  assumes "approve_player env faults m post season_post combined_post (s, k) (i, p)
             = Inr (s', k')"
  shows "k' = k + (if is_sub p then 4 else 3) \<and> (\<forall>j. k \<le> j \<and> j < k' \<longrightarrow> \<not> faults j)"
proof -
  from assms obtain s1 s2 s3 where
    c1: "\<not> faults k" and c2: "\<not> faults (Suc k)" and c3: "\<not> faults (Suc (Suc k))" and
    last: "(if is_sub p
            then storage_call faults (inc_subs (discord_id p)) (s3, Suc (Suc (Suc k)))
            else Inr (s3, Suc (Suc (Suc k)))) = Inr (s', k')"
    by (auto simp: approve_player_def bind_err_Inr dest!: storage_call_Inr)
  show ?thesis
  proof (cases "is_sub p")
    case True
    with last storage_call_Inr[of faults "inc_subs (discord_id p)" s3 "Suc (Suc (Suc k))"]
    have "\<not> faults (Suc (Suc (Suc k)))" "k' = k + 4"
      by auto
    with c1 c2 c3 True show ?thesis
      by (auto simp: less_Suc_eq numeral_eq_Suc le_Suc_eq)
  next
    case False
    with last have "k' = k + 3" by simp
    with c1 c2 c3 False show ?thesis
      by (auto simp: less_Suc_eq numeral_eq_Suc le_Suc_eq)
  qed
qed

lemma approve_loop_calls:
  assumes "foldM_err (approve_player env faults m post season_post combined_post) (s, k) ips
             = Inr (s', k')"
  shows "k' = k + sum_list (map (\<lambda>ip. if is_sub (snd ip) then 4 else 3) ips)
         \<and> (\<forall>j. k \<le> j \<and> j < k' \<longrightarrow> \<not> faults j)"
  using assms
proof (induction ips arbitrary: s k)
  case Nil
  then show ?case by auto
next
  case (Cons ip ips)
  obtain i p where ip: "ip = (i, p)" by (cases ip)
  from Cons.prems obtain s1 k1 where
    step: "approve_player env faults m post season_post combined_post (s, k) (i, p)
             = Inr (s1, k1)" and
    rest: "foldM_err (approve_player env faults m post season_post combined_post) (s1, k1) ips
             = Inr (s', k')"
    by (auto simp: bind_err_Inr ip)
  from approve_player_calls[OF step] have
    k1: "k1 = k + (if is_sub p then 4 else 3)" and f1: "\<forall>j. k \<le> j \<and> j < k1 \<longrightarrow> \<not> faults j"
    by simp_all
  from Cons.IH[OF rest] have
    k': "k' = k1 + sum_list (map (\<lambda>ip. if is_sub (snd ip) then 4 else 3) ips)" and
    f2: "\<forall>j. k1 \<le> j \<and> j < k' \<longrightarrow> \<not> faults j"
    by simp_all
  have "\<not> faults j" if "k \<le> j" "j < k'" for j
    using that f1 f2 by (cases "j < k1") auto
  with k1 k' show ?case by (simp add: ip)
qed

lemma transaction_body_no_fault:
  assumes "transaction_body env faults new_oid oid m post season_post combined_post s = Inr s'"
      and "j < storage_calls m"
  shows "\<not> faults j"
proof -
  from assms(1) obtain s1 k1 where
    loop: "foldM_err (approve_player env faults m post season_post combined_post) (s, 0)
             (enumerate 0 (players m)) = Inr (s1, k1)" and
    c1: "\<not> faults k1" and c2: "\<not> faults (Suc k1)" and c3: "\<not> faults (Suc (Suc k1))"
    by (auto simp: transaction_body_def bind_err_Inr dest!: storage_call_Inr)
  have "map (\<lambda>p. if is_sub p then 4 else (3::nat)) (players m)
          = map (\<lambda>p. if is_sub p then 4 else 3) (map snd (enumerate 0 (players m)))"
    by simp
  also have "\<dots> = map (\<lambda>ip. if is_sub (snd ip) then 4 else 3) (enumerate 0 (players m))"
    by (simp only: map_map comp_def)
  finally have sum: "sum_list (map (\<lambda>ip. if is_sub (snd ip) then 4 else 3)
                    (enumerate 0 (players m))) + 3 = storage_calls m"
    by (simp add: storage_calls_def)
  from approve_loop_calls[OF loop] sum have
    k1: "k1 + 3 = storage_calls m" and f: "\<forall>j. j < k1 \<longrightarrow> \<not> faults j"
    by simp_all
  from assms(2) k1 have "j < k1 \<or> j = k1 \<or> j = Suc k1 \<or> j = Suc (Suc k1)"
    by arith
  with f c1 c2 c3 show ?thesis by blast
qed

lemma storage_calls_clear:
  assumes "map clear_deltas ps' = map clear_deltas (players m)"
  shows "storage_calls (m\<lparr>players := ps', approved_at := a, approver_discord_id := b\<rparr>)
           = storage_calls m"
proof -
  have "map (is_sub \<circ> clear_deltas) ps' = map (is_sub \<circ> clear_deltas) (players m)"
    using assms by (simp only: map_map[symmetric])
  moreover have "is_sub \<circ> clear_deltas = is_sub"
    by (rule ext) (simp add: clear_deltas_def)
  ultimately have "map is_sub ps' = map is_sub (players m)"
    by simp
  then have "map ((\<lambda>b. if b then 4 else (3::nat)) \<circ> is_sub) ps'
               = map ((\<lambda>b. if b then 4 else 3) \<circ> is_sub) (players m)"
    by (simp only: map_map[symmetric])
  then show ?thesis
    by (simp add: storage_calls_def comp_def)
qed

lemma approve_match_failure_keeps_stores:
  assumes "approve_match env faults new_oid s mid approver = (Inl e, s')"
  shows "s' = s"
  using assms
  by (auto simp: approve_match_def split: sum.splits option.splits if_splits prod.splits)

lemma approve_match_unbound:
  assumes "ObjectId env mid = Some oid"
      and "map_of (pending_matches s) oid = Some res"
      and "\<exists>p \<in> set (players res). discord_id p = None"
  shows "approve_match env faults new_oid s mid approver
           = (Inl (MatchServiceError ''Player has no linked Discord ID''), s)"
  using assms by (auto simp: approve_match_def to_oid_def list_ex_iff)

lemma approve_match_fault:
  assumes "ObjectId env mid = Some oid"
      and "map_of (pending_matches s) oid = Some res"
      and "k < storage_calls res" and "faults k"
  shows "\<exists>e. approve_match env faults new_oid s mid approver = (Inl e, s)"
proof (cases "approve_match env faults new_oid s mid approver")
  case (Pair out s')
  show ?thesis
  proof (cases out)
    case (Inl e)
    with Pair approve_match_failure_keeps_stores[of env faults new_oid s mid approver e s']
    show ?thesis by simp
  next
    case (Inr r)
    with Pair assms(1,2) obtain m post season_post combined_post where
      rated: "bind_err (update_all_stats env s res)
                (\<lambda>(m3, post, season_post, combined_post).
                   bind_err (require_match m3) (\<lambda>m.
                   Inr (m\<lparr>approved_at := Some (utcnow env),
                          approver_discord_id := Some approver\<rparr>,
                        post, season_post, combined_post)))
              = Inr (m, post, season_post, combined_post)" and
      txn: "transaction_body env faults new_oid oid m post season_post combined_post s = Inr s'"
      by (auto simp: approve_match_def to_oid_def split: sum.splits if_splits)
    from rated obtain m3 ps where
      u: "update_all_stats env s res = Inr (m3, ps)"
      by (auto simp: bind_err_Inr)
    from update_all_stats_clear[OF u] obtain ps' where
      m3: "m3 = Some (res\<lparr>players := ps'\<rparr>)" and
      cl: "map clear_deltas ps' = map clear_deltas (players res)"
      by blast
    from rated u m3 have "m = res\<lparr>players := ps', approved_at := Some (utcnow env),
                                 approver_discord_id := Some approver\<rparr>"
      by (simp add: require_match_def)
    with storage_calls_clear[OF cl] have "storage_calls m = storage_calls res"
      by simp
    with transaction_body_no_fault[OF txn] assms(3,4) show ?thesis
      by simp
  qed
qed

text \<open>
  Claim C1.  Whenever \<open>approve_match\<close> ends with an error, the stores afterwards are
  the stores before: no aggregate row, no validated match and no pending record has
  changed, so the pending record can be approved again.  It ends with the validation
  error when a player of the stored match has no bound identity, and it ends with an
  error whenever one of the storage calls of the transaction (the three upserts per
  player, the substitute counter, the insert of the validated match, the delete of the
  pending record, the commit) fails.
\<close>

theorem approve_match_atomic:
  "(\<forall>e s'. approve_match env faults new_oid s mid approver = (Inl e, s') \<longrightarrow> s' = s)
   \<and> (\<forall>oid res. ObjectId env mid = Some oid \<and> map_of (pending_matches s) oid = Some res
        \<longrightarrow> ((\<exists>p \<in> set (players res). discord_id p = None)
               \<longrightarrow> approve_match env faults new_oid s mid approver
                     = (Inl (MatchServiceError ''Player has no linked Discord ID''), s))
            \<and> ((\<exists>k < storage_calls res. faults k)
               \<longrightarrow> (\<exists>e. approve_match env faults new_oid s mid approver = (Inl e, s))))"
proof (intro conjI allI impI)
  fix e s'
  assume "approve_match env faults new_oid s mid approver = (Inl e, s')"
  then show "s' = s" by (rule approve_match_failure_keeps_stores)
next
  fix oid res
  assume found: "ObjectId env mid = Some oid \<and> map_of (pending_matches s) oid = Some res"
  then have oid: "ObjectId env mid = Some oid" and res: "map_of (pending_matches s) oid = Some res"
    by simp_all
  {
    assume "\<exists>p \<in> set (players res). discord_id p = None"
    then show "approve_match env faults new_oid s mid approver
                     = (Inl (MatchServiceError ''Player has no linked Discord ID''), s)"
      by (rule approve_match_unbound[OF oid res])
  }
  {
    assume "\<exists>k < storage_calls res. faults k"
    then obtain k where "k < storage_calls res" "faults k" by blast
    then show "\<exists>e. approve_match env faults new_oid s mid approver = (Inl e, s)"
      by (rule approve_match_fault[OF oid res])
  }
qed

theorem approve_match_atomic_witness:
  "approve_match example_env (\<lambda>k. k = 4) 7 sub_db ''m1'' ''999''
     = (Inl (MatchServiceError ''An error occured during writing to DB''), sub_db)
   \<and> approve_match example_env (\<lambda>k. False) 7 duel_db ''m1'' ''999''
     = (Inl (MatchServiceError ''Player has no linked Discord ID''), duel_db)
   \<and> pending_matches (snd (approve_match example_env (\<lambda>k. False) 7 sub_db ''m1'' ''999'')) = []"
proof -
  have oid: "ObjectId example_env ''m1'' = Some 1"
    by (simp add: example_env_def)
  have "fst (approve_match example_env (\<lambda>k. k = 4) 7 sub_db ''m1'' ''999'')
          = Inl (MatchServiceError ''An error occured during writing to DB'')"
    by code_simp
  then obtain s' where
    run: "approve_match example_env (\<lambda>k. k = 4) 7 sub_db ''m1'' ''999''
            = (Inl (MatchServiceError ''An error occured during writing to DB''), s')"
    by (cases "approve_match example_env (\<lambda>k. k = 4) 7 sub_db ''m1'' ''999''") auto
  from approve_match_atomic[of example_env "\<lambda>k. k = 4" 7 sub_db "''m1''" "''999''"] run
  have "s' = sub_db" by blast
  with run have first:
    "approve_match example_env (\<lambda>k. k = 4) 7 sub_db ''m1'' ''999''
       = (Inl (MatchServiceError ''An error occured during writing to DB''), sub_db)"
    by simp
  have "case map_of (pending_matches duel_db) 1 of
          None \<Rightarrow> False
        | Some res \<Rightarrow> list_ex (\<lambda>p. discord_id p = None) (players res)"
    by code_simp
  then obtain res where
    res: "map_of (pending_matches duel_db) 1 = Some res" and
    unbound: "\<exists>p \<in> set (players res). discord_id p = None"
    by (auto simp: list_ex_iff split: option.splits)
  from approve_match_atomic[of example_env "\<lambda>k. False" 7 duel_db "''m1''" "''999''"]
    oid res unbound
  have second:
    "approve_match example_env (\<lambda>k. False) 7 duel_db ''m1'' ''999''
       = (Inl (MatchServiceError ''Player has no linked Discord ID''), duel_db)"
    by blast
  have third:
    "pending_matches (snd (approve_match example_env (\<lambda>k. False) 7 sub_db ''m1'' ''999'')) = []"
    by code_simp
  from first second third show ?thesis by blast
qed

section \<open>Deltas and the policy for substitutes\<close>

lemma get_delta_set_delta [simp]: "get_delta name (set_delta name v p) = Some v"
  by (cases name) simp_all

lemma computed_delta_cases:
  assumes "computed_delta env c post i p = Inr d"
  shows "if discord_id p = None then d = 0
         else \<exists>r. i < length post \<and> post ! i = Some r
                \<and> py_round env (fsub env (mu r) (mu c)) = Some d"
  using assms
  by (auto simp: computed_delta_def post_at_def bind_err_Inr nth_err_Inr
           split: if_splits option.splits)

text \<open>
  Claim C2, as stated, fails for a row that carries both flags: it is treated as a
  substitute, so its stored delta can be positive although the row is marked
  substituted out.  Row 1 of \<open>both_flags_match\<close> is such a row; its computed delta is
  10 and so is its stored delta, where the claim asks for \<open>min(10, 0) = 0\<close>.
\<close>

theorem subbed_out_delta_counterexample:
  "subbed_out (players both_flags_match ! 1)
   \<and> map delta (players_after
        (update_player_stats example_env (Some both_flags_match)
           (example_ranking both_flags_match) Delta)) = [10, 10, 0, - 10]"
  by code_simp

text \<open>
  Claim C2, amended.  When the rating update for a stat space returns, every player
  \<open>i\<close> has a computed delta \<open>d\<close>: 0 when the player has no bound identity, otherwise
  \<open>round\<close> of the posterior mean merged for slot \<open>i\<close> minus the prior mean.  The delta
  stored in the player's field is \<open>max(minimum credit, d)\<close> for a row marked \<open>is_sub\<close>
  (hence never below the minimum), \<open>min(d, 0)\<close> for a row marked \<open>subbed_out\<close> and not
  \<open>is_sub\<close> (hence never positive), and \<open>d\<close> for every other row.
\<close>

theorem update_player_stats_deltas:
  assumes "update_player_stats env (Some m) players_ranking name = Inr (Some m', po)"
      and "i < length (players m)"
  shows "\<exists>post d v.
           posterior env m players_ranking = Inr post
           \<and> i < length players_ranking
           \<and> (if discord_id (players m ! i) = None then d = 0
              else \<exists>r. i < length post \<and> post ! i = Some r
                     \<and> py_round env (fsub env (mu r) (mu (players_ranking ! i))) = Some d)
           \<and> get_delta name (players m' ! i) = Some v
           \<and> v = (if is_sub (players m ! i) then max (min_points_for_subs env) d
                  else if subbed_out (players m ! i) then min d 0
                  else d)
           \<and> (is_sub (players m ! i) \<longrightarrow> min_points_for_subs env \<le> v)
           \<and> (subbed_out (players m ! i) \<and> \<not> is_sub (players m ! i) \<longrightarrow> v \<le> 0)"
proof -
  from update_player_stats_shape[OF assms(1)] obtain ps' post post' where
    post: "posterior env m players_ranking = Inr post" and
    app: "apply_deltas env name players_ranking (enumerate 0 (players m)) post
            = Inr (ps', post')" and
    m': "m' = m\<lparr>players := ps'\<rparr>"
    by auto
  from apply_deltas_nth[OF app assms(2)] obtain d where
    rk: "i < length players_ranking" and
    cd: "computed_delta env (players_ranking ! i) post i (players m ! i) = Inr d" and
    row: "ps' ! i = set_delta name (stored_delta env (players m ! i) d) (players m ! i)"
    by auto
  let ?v = "stored_delta env (players m ! i) d"
  have v: "?v = (if is_sub (players m ! i) then max (min_points_for_subs env) d
                 else if subbed_out (players m ! i) then min d 0
                 else d)"
    by (simp add: stored_delta_def min_def)
  have "get_delta name (players m' ! i) = Some ?v"
    by (simp add: m' row)
  moreover have "is_sub (players m ! i) \<longrightarrow> min_points_for_subs env \<le> ?v"
    by (simp add: v)
  moreover have "subbed_out (players m ! i) \<and> \<not> is_sub (players m ! i) \<longrightarrow> ?v \<le> 0"
    by (simp add: v)
  ultimately show ?thesis
    using post rk computed_delta_cases[OF cd] v by blast
qed

theorem update_player_stats_deltas_witness:
  "\<exists>m' po. update_player_stats example_env (Some both_flags_match)
              (example_ranking both_flags_match) Delta = Inr (Some m', po)
     \<and> (2::nat) < length (players both_flags_match)
     \<and> subbed_out (players both_flags_match ! 2) \<and> \<not> is_sub (players both_flags_match ! 2)
     \<and> is_sub (players both_flags_match ! 0)
     \<and> (\<exists>v. get_delta Delta (players m' ! 2) = Some v \<and> v \<le> 0)
     \<and> (\<exists>v. get_delta Delta (players m' ! 0) = Some v \<and> min_points_for_subs example_env \<le> v)"
proof -
  have "case update_player_stats example_env (Some both_flags_match)
               (example_ranking both_flags_match) Delta of
          Inr (Some m', po) \<Rightarrow> True | _ \<Rightarrow> False"
    by code_simp
  then obtain m' po where
    run: "update_player_stats example_env (Some both_flags_match)
            (example_ranking both_flags_match) Delta = Inr (Some m', po)"
    by (auto split: sum.splits prod.splits option.splits)
  have len: "(2::nat) < length (players both_flags_match)"
       "(0::nat) < length (players both_flags_match)"
    by (simp_all add: both_flags_match_def)
  have flags: "subbed_out (players both_flags_match ! 2)"
       "\<not> is_sub (players both_flags_match ! 2)" "is_sub (players both_flags_match ! 0)"
    by (simp_all add: both_flags_match_def example_row_def)
  from update_player_stats_deltas[OF run len(1)] flags
  have two: "\<exists>v. get_delta Delta (players m' ! 2) = Some v \<and> v \<le> 0"
    by blast
  from update_player_stats_deltas[OF run len(2)] flags
  have zero: "\<exists>v. get_delta Delta (players m' ! 0) = Some v
                 \<and> min_points_for_subs example_env \<le> v"
    by blast
  from run len flags two zero show ?thesis by blast
qed

section \<open>The two substitution flags\<close>

lemma flags_ok_iff:
  "flags_ok s \<longleftrightarrow> (\<forall>(oid, m) \<in> set (pending_matches s). list_all row_ok (players m))"
  by (auto simp: flags_ok_def list_all_iff)

lemma set_update_first:
  "map_of coll k = Some v \<Longrightarrow> set (update_first coll k f) \<subseteq> insert (k, f v) (set coll)"
  by (induction coll k f rule: update_first.induct) auto

lemma stored_rows_ok:
  "flags_ok s \<Longrightarrow> map_of (pending_matches s) oid = Some res \<Longrightarrow> list_all row_ok (players res)"
  by (auto simp: flags_ok_iff dest!: map_of_SomeD)

lemma flags_ok_write:
  assumes "flags_ok s" and "map_of (pending_matches s) oid = Some res"
      and "list_all row_ok (players (f res))"
  shows "flags_ok (snd (write_pending s oid f))"
  using assms set_update_first[OF assms(2), of f]
  by (auto simp: flags_ok_iff write_pending_def)

lemma row_ok_clear [simp]: "row_ok (clear_deltas p) = row_ok p"
  by (simp add: row_ok_def clear_deltas_def)

lemma rows_ok_clear:
  assumes "map clear_deltas ps' = map clear_deltas ps"
  shows "list_all row_ok ps' = list_all row_ok ps"
proof -
  have "list_all row_ok ps' = list_all row_ok (map clear_deltas ps')"
    by (simp add: list.pred_map comp_def)
  also have "\<dots> = list_all row_ok (map clear_deltas ps)"
    by (simp only: assms)
  also have "\<dots> = list_all row_ok ps"
    by (simp add: list.pred_map comp_def)
  finally show ?thesis .
qed

lemma rated_rows_ok:
  assumes "bind_err (update_all_stats env s m) (\<lambda>(m3, posts). require_match m3) = Inr m'"
      and "list_all row_ok (players m)"
  shows "list_all row_ok (players m')"
proof -
  from rated_match[OF assms(1)] obtain ps' where
    m': "m' = m\<lparr>players := ps'\<rparr>" and
    cl: "map clear_deltas ps' = map clear_deltas (players m)"
    by blast
  from rows_ok_clear[OF cl] assms(2) show ?thesis
    by (simp add: m')
qed

lemma set_player_rows_ok:
  assumes "list_all row_ok (players d)" and "\<And>p. row_ok p \<Longrightarrow> row_ok (f p)"
  shows "list_all row_ok (players (set_player i f d))"
proof (cases "i < length (players d)")
  case True
  with assms(1) have "row_ok (players d ! i)"
    by (simp add: list_all_length)
  with assms show ?thesis
    using set_update_subset_insert[of "players d" i "f (players d ! i)"]
    by (auto simp: set_player_def list_all_iff)
next
  case False
  with assms(1) show ?thesis
    by (simp add: set_player_def list_update_beyond)
qed

lemma fold_set_player_rows_ok:
  assumes "list_all row_ok (players d)" and "\<And>x p. row_ok p \<Longrightarrow> row_ok (f x p)"
  shows "list_all row_ok (players (fold (\<lambda>(i, x). set_player i (f x)) ixs d))"
  using assms(1)
proof (induction ixs arbitrary: d)
  case Nil
  then show ?case by simp
next
  case (Cons ix ixs)
  obtain i x where ix: "ix = (i, x)" by (cases ix)
  from Cons.prems have "list_all row_ok (players (set_player i (f x) d))"
    by (rule set_player_rows_ok) (rule assms(2))
  from Cons.IH[OF this] show ?case by (simp add: ix)
qed

lemma create_from_save_flags:
  assumes "flags_ok s"
  shows "flags_ok (snd (create_from_save env new_oid s file_bytes reporter cloud msg))"
proof (cases "create_from_save env new_oid s file_bytes reporter cloud msg")
  case (Pair out s1)
  show ?thesis
  proof (cases "s1 = s")
    case True
    with Pair assms show ?thesis by simp
  next
    case False
    have "\<exists>d m coll.
            bind_err
              (update_all_stats env s
                 (match_id_to_discord s
                    (to_match env d (sha256 env (unique_data d)) reporter cloud msg)))
              (\<lambda>(m3, posts). bind_err (require_match m3) (\<lambda>m.
                 bind_err (insert_one (pending_matches s) new_oid m) (\<lambda>coll. Inr (m, coll))))
            = Inr (m, coll) \<and> s1 = s\<lparr>pending_matches := coll\<rparr>"
    proof (cases "parse_save env file_bytes")
      case (Inl e)
      with Pair False show ?thesis by (simp add: create_from_save_def)
    next
      case (Inr d)
      show ?thesis
      proof (cases "find (\<lambda>(oid, res). save_file_hash res = sha256 env (unique_data d))
                      (pending_matches s)")
        case (Some found)
        with Pair False Inr show ?thesis
          by (cases found) (simp add: create_from_save_def)
      next
        case None
        show ?thesis
        proof (cases "bind_err
              (update_all_stats env s
                 (match_id_to_discord s
                    (to_match env d (sha256 env (unique_data d)) reporter cloud msg)))
              (\<lambda>(m3, posts). bind_err (require_match m3) (\<lambda>m.
                 bind_err (insert_one (pending_matches s) new_oid m) (\<lambda>coll. Inr (m, coll))))")
          case (Inl e)
          with Pair False Inr None show ?thesis by (simp add: create_from_save_def)
        next
          case inner: (Inr mc)
          obtain m coll where mc: "mc = (m, coll)" by (cases mc)
          from Pair Inr None inner mc have "s1 = s\<lparr>pending_matches := coll\<rparr>"
            by (simp add: create_from_save_def)
          with inner mc show ?thesis by blast
        qed
      qed
    qed
    then obtain d m coll where
      run: "bind_err
              (update_all_stats env s
                 (match_id_to_discord s
                    (to_match env d (sha256 env (unique_data d)) reporter cloud msg)))
              (\<lambda>(m3, posts). bind_err (require_match m3) (\<lambda>m.
                 bind_err (insert_one (pending_matches s) new_oid m) (\<lambda>coll. Inr (m, coll))))
            = Inr (m, coll)" and
      s1: "s1 = s\<lparr>pending_matches := coll\<rparr>"
      by blast
    let ?m0 = "match_id_to_discord s
                 (to_match env d (sha256 env (unique_data d)) reporter cloud msg)"
    from run obtain m3 posts where
      u: "update_all_stats env s ?m0 = Inr (m3, posts)" and
      rq: "require_match m3 = Inr m" and
      ins: "insert_one (pending_matches s) new_oid m = Inr coll"
      by (auto simp: bind_err_Inr)
    from u rq have "bind_err (update_all_stats env s ?m0) (\<lambda>(m3, posts). require_match m3)
                      = Inr m"
      by simp
    moreover have "list_all row_ok (players ?m0)"
      by (auto simp: match_id_to_discord_def to_match_def to_player_def row_ok_def
                     list_all_iff split: option.splits)
    ultimately have m: "list_all row_ok (players m)"
      by (rule rated_rows_ok)
    from ins have "coll = pending_matches s @ [(new_oid, m)]"
      by (auto simp: insert_one_def split: if_splits)
    with assms m show ?thesis
      by (simp add: Pair s1 flags_ok_def)
  qed
qed

lemma append_ids_flags:
  assumes "flags_ok s"
  shows "flags_ok (snd (append_discord_message_id_list env s mid ids))"
proof -
  have "flags_ok (snd (write_pending s oid
           (\<lambda>d. d\<lparr>discord_messages_id_list := discord_messages_id_list res @ ids\<rparr>)))"
    if "map_of (pending_matches s) oid = Some res" for oid res
    using assms that by (rule flags_ok_write) (simp add: stored_rows_ok[OF assms that])
  with assms show ?thesis
    by (auto simp: append_discord_message_id_list_def split: sum.splits option.splits)
qed

lemma trigger_quit_flags:
  assumes "flags_ok s"
  shows "flags_ok (snd (trigger_quit env s mid quitter msg))"
proof -
  have "flags_ok (snd (write_pending s oid
           ((\<lambda>d. d\<lparr>discord_messages_id_list := discord_messages_id_list res @ [msg]\<rparr>) \<circ>
            (case find (\<lambda>(i, player). discord_id player = Some quitter)
                    (enumerate 0 (players res)) of
               None \<Rightarrow> id
             | Some (i, player) \<Rightarrow> set_player i (\<lambda>sp. sp\<lparr>quit := \<not> quit player\<rparr>)))))"
    if found: "map_of (pending_matches s) oid = Some res" for oid res
  proof (rule flags_ok_write[OF assms found])
    note ok = stored_rows_ok[OF assms found]
    show "list_all row_ok (players
            (((\<lambda>d. d\<lparr>discord_messages_id_list := discord_messages_id_list res @ [msg]\<rparr>) \<circ>
              (case find (\<lambda>(i, player). discord_id player = Some quitter)
                      (enumerate 0 (players res)) of
                 None \<Rightarrow> id
               | Some (i, player) \<Rightarrow> set_player i (\<lambda>sp. sp\<lparr>quit := \<not> quit player\<rparr>))) res))"
    proof (cases "find (\<lambda>(i, player). discord_id player = Some quitter)
                    (enumerate 0 (players res))")
      case None
      with ok show ?thesis by simp
    next
      case (Some found)
      obtain i player where f: "found = (i, player)" by (cases found)
      have "list_all row_ok (players (set_player i (\<lambda>sp. sp\<lparr>quit := \<not> quit player\<rparr>) res))"
        using ok by (rule set_player_rows_ok) (simp add: row_ok_def)
      with Some f show ?thesis by simp
    qed
  qed
  with assms show ?thesis
    by (auto simp: trigger_quit_def split: sum.splits option.splits)
qed

lemma change_order_flags:
  assumes "flags_ok s"
  shows "flags_ok (snd (change_order env s mid new_order msg))"
proof -
  have "flags_ok (snd (write_pending s oid
          (fold (\<lambda>(i, player).
                   set_player i (\<lambda>sp. sp\<lparr>placement := placement player,
                                        delta := delta player,
                                        season_delta := season_delta player,
                                        combined_delta := combined_delta player\<rparr>))
             ips \<circ>
           (\<lambda>d. d\<lparr>discord_messages_id_list := ids\<rparr>))))"
    if found: "map_of (pending_matches s) oid = Some res" for oid res ips ids
  proof (rule flags_ok_write[OF assms found])
    have "list_all row_ok (players (res\<lparr>discord_messages_id_list := ids\<rparr>))"
      using stored_rows_ok[OF assms found] by simp
    then have "list_all row_ok (players
            (fold (\<lambda>(i, player).
                     set_player i ((\<lambda>player sp. sp\<lparr>placement := placement player,
                                          delta := delta player,
                                          season_delta := season_delta player,
                                          combined_delta := combined_delta player\<rparr>) player))
               ips (res\<lparr>discord_messages_id_list := ids\<rparr>)))"
      by (rule fold_set_player_rows_ok) (simp add: row_ok_def)
    then show "list_all row_ok (players
            ((fold (\<lambda>(i, player).
                     set_player i (\<lambda>sp. sp\<lparr>placement := placement player,
                                          delta := delta player,
                                          season_delta := season_delta player,
                                          combined_delta := combined_delta player\<rparr>))
               ips \<circ>
             (\<lambda>d. d\<lparr>discord_messages_id_list := ids\<rparr>)) res))"
      by simp
  qed
  with assms show ?thesis
    by (auto simp: change_order_def split: sum.splits option.splits)
qed

lemma assign_discord_id_flags:
  assumes "flags_ok s"
  shows "flags_ok (snd (assign_discord_id env s mid player_id did msg))"
proof -
  have "flags_ok (snd (write_pending s oid
          (fold (\<lambda>(i, row). set_player i (\<lambda>sp. sp\<lparr>delta := delta row,
                                                  season_delta := season_delta row\<rparr>))
             irows \<circ>
           set_player k (\<lambda>sp. sp\<lparr>discord_id := Some did, steam_id := sid\<rparr>) \<circ>
           (\<lambda>d. d\<lparr>discord_messages_id_list := ids\<rparr>))))"
    if found: "map_of (pending_matches s) oid = Some res" for oid res irows k sid ids
  proof (rule flags_ok_write[OF assms found])
    have "list_all row_ok (players (res\<lparr>discord_messages_id_list := ids\<rparr>))"
      using stored_rows_ok[OF assms found] by simp
    then have "list_all row_ok (players
             (set_player k (\<lambda>sp. sp\<lparr>discord_id := Some did, steam_id := sid\<rparr>)
                (res\<lparr>discord_messages_id_list := ids\<rparr>)))"
      by (rule set_player_rows_ok) (simp add: row_ok_def)
    then have "list_all row_ok (players
            (fold (\<lambda>(i, row). set_player i ((\<lambda>row sp. sp\<lparr>delta := delta row,
                                                  season_delta := season_delta row\<rparr>) row))
               irows
               (set_player k (\<lambda>sp. sp\<lparr>discord_id := Some did, steam_id := sid\<rparr>)
                  (res\<lparr>discord_messages_id_list := ids\<rparr>))))"
      by (rule fold_set_player_rows_ok) (simp add: row_ok_def)
    then show "list_all row_ok (players
            ((fold (\<lambda>(i, row). set_player i (\<lambda>sp. sp\<lparr>delta := delta row,
                                                  season_delta := season_delta row\<rparr>))
               irows \<circ>
             set_player k (\<lambda>sp. sp\<lparr>discord_id := Some did, steam_id := sid\<rparr>) \<circ>
             (\<lambda>d. d\<lparr>discord_messages_id_list := ids\<rparr>)) res))"
      by simp
  qed
  with assms show ?thesis
    by (auto simp: assign_discord_id_def split: sum.splits option.splits)
qed

lemma set_list_insert: "set (list_insert j x xs) \<subseteq> insert x (set xs)"
  by (auto simp: list_insert_def dest: in_set_takeD in_set_dropD)

lemma set_list_pop: "set (list_pop j xs) \<subseteq> set xs"
  by (auto simp: list_pop_def dest: in_set_takeD in_set_dropD)

lemma assign_sub_flags:
  assumes "flags_ok s" and "\<not> targets_subbed_out env s mid sub_in_id"
  shows "flags_ok (snd (assign_sub env s mid sub_in_id did msg))"
proof -
  have "flags_ok (snd (write_pending s oid (\<lambda>d. m\<lparr>discord_messages_id_list := ids\<rparr>)))"
    if found: "map_of (pending_matches s) oid = Some res"
      and oid: "ObjectId env mid = Some oid"
      and n: "to_int env sub_in_id = Inr n" "\<not> n < 0" "\<not> int (length (players res)) \<le> n"
      and rated: "bind_err
              (update_all_stats env s
                 (res\<lparr>players :=
                    list_insert (nat n + 1)
                      (subbed_out_row s ((players res ! nat n)\<lparr>is_sub := True\<rparr>) did)
                      ((players res)[nat n := (players res ! nat n)\<lparr>is_sub := True\<rparr>])\<rparr>))
              (\<lambda>(m3, posts). require_match m3) = Inr m"
    for oid res n m ids
  proof (rule flags_ok_write[OF assms(1) found])
    note ok = stored_rows_ok[OF assms(1) found]
    from n(1) have "py_int env sub_in_id = Some n"
      by (auto simp: to_int_def split: option.splits)
    with assms(2) found oid n(2,3) have free: "\<not> subbed_out (players res ! nat n)"
      by (simp add: targets_subbed_out_def)
    let ?origin = "(players res ! nat n)\<lparr>is_sub := True\<rparr>"
    let ?row = "subbed_out_row s ?origin did"
    have "row_ok ?origin" using free by (simp add: row_ok_def)
    moreover have "row_ok ?row" by (simp add: row_ok_def subbed_out_row_def)
    ultimately have "list_all row_ok
        (list_insert (nat n + 1) ?row ((players res)[nat n := ?origin]))"
      using ok set_list_insert[of "nat n + 1" ?row "(players res)[nat n := ?origin]"]
        set_update_subset_insert[of "players res" "nat n" ?origin]
      by (auto simp: list_all_iff)
    with rated_rows_ok[OF rated] show
      "list_all row_ok (players (m\<lparr>discord_messages_id_list := ids\<rparr>))"
      by simp
  qed
  with assms(1) show ?thesis
    by (auto simp: assign_sub_def to_oid_def split: sum.splits option.splits)
qed

lemma remove_sub_flags:
  assumes "flags_ok s"
  shows "flags_ok (snd (remove_sub env s mid sub_out_id msg))"
proof -
  have "flags_ok (snd (write_pending s oid (\<lambda>d. m\<lparr>discord_messages_id_list := ids\<rparr>)))"
    if found: "map_of (pending_matches s) oid = Some res"
      and rated: "bind_err
              (update_all_stats env s
                 (res\<lparr>players :=
                    list_pop (nat n)
                      ((players res)[nat (n - 1) :=
                         (players res ! nat (n - 1))\<lparr>is_sub := False\<rparr>])\<rparr>))
              (\<lambda>(m3, posts). require_match m3) = Inr m"
    for oid res n m ids
  proof (rule flags_ok_write[OF assms found])
    note ok = stored_rows_ok[OF assms found]
    let ?cleared = "(players res ! nat (n - 1))\<lparr>is_sub := False\<rparr>"
    have "row_ok ?cleared" by (simp add: row_ok_def)
    then have "list_all row_ok
        (list_pop (nat n) ((players res)[nat (n - 1) := ?cleared]))"
      using ok set_list_pop[of "nat n" "(players res)[nat (n - 1) := ?cleared]"]
        set_update_subset_insert[of "players res" "nat (n - 1)" ?cleared]
      by (auto simp: list_all_iff)
    with rated_rows_ok[OF rated] show
      "list_all row_ok (players (m\<lparr>discord_messages_id_list := ids\<rparr>))"
      by simp
  qed
  with assms show ?thesis
    by (auto simp: remove_sub_def split: sum.splits option.splits)
qed

lemma reachable_flags_ok:
  assumes "reachable guarded env s" and "guarded"
  shows "flags_ok s"
  using assms
proof (induction rule: reachable.induct)
  case (start s)
  then show ?case by (simp add: flags_ok_def)
next
  case (ingest s new_oid file_bytes reporter cloud msg)
  then show ?case by (simp add: create_from_save_flags)
next
  case (reorder s mid new_order msg)
  then show ?case by (simp add: change_order_flags)
next
  case (toggle_quit s mid quitter msg)
  then show ?case by (simp add: trigger_quit_flags)
next
  case (bind_identity s mid player_id did msg)
  then show ?case by (simp add: assign_discord_id_flags)
next
  case (insert_substitute s mid sub_in_id did msg)
  then show ?case by (simp add: assign_sub_flags)
next
  case (remove_substitute s mid sub_out_id msg)
  then show ?case by (simp add: remove_sub_flags)
next
  case (append_ids s mid ids)
  then show ?case by (simp add: append_ids_flags)
qed

text \<open>
  Claim C10, as stated, fails.  Ingest the duel, bind the second player, insert a
  substitute at slot 0 and then insert a substitute at slot 1, which is the
  substituted-out row created by the first insertion: that row now carries both flags.
\<close>

theorem both_flags_reachable_counterexample:
  "reachable False example_env double_sub_db
   \<and> map is_sub (stored_players double_sub_db 1) = [True, True, False, False]
   \<and> map subbed_out (stored_players double_sub_db 1) = [False, True, True, False]"
proof -
  have "pending_matches example_db = []"
    by (simp add: example_db_def)
  then have "reachable False example_env example_db"
    by (rule reachable.start)
  then have "reachable False example_env duel_db"
    unfolding duel_db_def by (rule reachable.ingest)
  then have "reachable False example_env bound_db"
    unfolding bound_db_def by (rule reachable.bind_identity)
  then have "reachable False example_env sub_db"
    unfolding sub_db_def by (rule reachable.insert_substitute) simp
  then have "reachable False example_env double_sub_db"
    unfolding double_sub_db_def by (rule reachable.insert_substitute) simp
  moreover have "map is_sub (stored_players double_sub_db 1) = [True, True, False, False]"
    by code_simp
  moreover have "map subbed_out (stored_players double_sub_db 1) = [False, True, True, False]"
    by code_simp
  ultimately show ?thesis by blast
qed

text \<open>
  Claim C10, amended.  In every store reachable from ingestion by reorder, toggle
  quit, bind identity, remove substitute, append correlation ids, and insert
  substitute applied only to slots that are not substituted-out rows, every player row
  of every pending match has at most one of \<open>is_sub\<close> and \<open>subbed_out\<close> set.
\<close>

theorem guarded_reachable_flags_ok:
  assumes "reachable True env s"
  shows "flags_ok s"
  using assms by (rule reachable_flags_ok) simp

theorem guarded_reachable_flags_ok_witness:
  "reachable True example_env sub_db \<and> flags_ok sub_db
   \<and> map is_sub (stored_players sub_db 1) = [True, False, False]
   \<and> map subbed_out (stored_players sub_db 1) = [False, True, False]"
proof -
  have "pending_matches example_db = []"
    by (simp add: example_db_def)
  then have "reachable True example_env example_db"
    by (rule reachable.start)
  then have "reachable True example_env duel_db"
    unfolding duel_db_def by (rule reachable.ingest)
  then have b: "reachable True example_env bound_db"
    unfolding bound_db_def by (rule reachable.bind_identity)
  have "\<not> targets_subbed_out example_env bound_db ''m1'' ''0''"
    by code_simp
  with b have r: "reachable True example_env sub_db"
    unfolding sub_db_def by (rule reachable.insert_substitute)
  from guarded_reachable_flags_ok[OF r] have "flags_ok sub_db" .
  moreover have "map is_sub (stored_players sub_db 1) = [True, False, False]"
    by code_simp
  moreover have "map subbed_out (stored_players sub_db 1) = [False, True, False]"
    by code_simp
  ultimately show ?thesis using r by blast
qed

end
